theory Spec2Isabelle
  imports Main "HOL-Library.Sublist" "HOL-Library.Word"
begin

section \<open>Strings, bytes and dictionaries\<close>

text \<open>
  A Python \<open>str\<close> is modelled as a \<^typ>\<open>string\<close> holding its UTF-8 bytes, so an ASCII
  character is one \<^typ>\<open>char\<close> and the few non-ASCII characters of the templates are the
  bytes of their encoding. A Python \<open>bytes\<close> value is a list of 8-bit words.
  \<open>x in s\<close> on strings is \<^const>\<open>sublist\<close> (a contiguous occurrence).
\<close>

type_synonym byte = "8 word"

text \<open>
  A dict literal is an association list. \<open>d.get(k, default)\<close> and \<open>k in d\<close> never
  raise; \<open>d[k]\<close> raises \<open>KeyError(k)\<close>, whose \<open>str\<close> is the key between apostrophes.
\<close>

definition dict_get :: "(string \<times> 'v) list \<Rightarrow> string \<Rightarrow> 'v \<Rightarrow> 'v" where
  "dict_get d k dflt = (case map_of d k of Some v \<Rightarrow> v | None \<Rightarrow> dflt)"

definition dict_contains :: "(string \<times> 'v) list \<Rightarrow> string \<Rightarrow> bool" where
  "dict_contains d k = (map_of d k \<noteq> None)"

definition dict_item :: "(string \<times> 'v) list \<Rightarrow> string \<Rightarrow> string + 'v" where
  "dict_item d k =
     (case map_of d k of Some v \<Rightarrow> Inr v | None \<Rightarrow> Inl ([CHR 0x27] @ k @ [CHR 0x27]))"

section \<open>The story document\<close>

record Story =
  title :: string
  moral :: string
  story :: "string list"
  imagePrompts :: "string list"
  images :: "byte list option list"

text \<open>\<open>Story.__init__\<close>: the \<open>images\<close> argument defaults to \<open>None\<close>, and
  \<open>images or []\<close> turns \<open>None\<close> (and the empty list) into the empty list.\<close>

definition Story_init ::
  "string \<Rightarrow> string \<Rightarrow> string list \<Rightarrow> string list \<Rightarrow> byte list option list option \<Rightarrow> Story"
where
  "Story_init title' moral' story' imagePrompts' images' =
     \<lparr>title = title', moral = moral', story = story', imagePrompts = imagePrompts',
      images = (case images' of None \<Rightarrow> [] | Some l \<Rightarrow> if l = [] then [] else l)\<rparr>"

section \<open>The fallback content provider\<close>

text \<open>One value of the \<open>fallback_stories\<close> dict: a title, a moral, the sentences and the
  image prompts. The f-strings interpolate \<open>kid_name\<close> where the source does.\<close>

record fallback_entry =
  e_title :: string
  e_moral :: string
  e_story :: "string list"
  e_imagePrompts :: "string list"

definition forest_story :: "string \<Rightarrow> string list" where
  "forest_story kid_name = [
     ''One sunny morning, '' @
       kid_name @
       '' decided to explore the magical forest near their home.'',
     ''The trees whispered secrets as '' @
       kid_name @
       '' walked deeper into the woods, discovering a hidden path covered '' @
       ''with golden leaves.'',
     ''Suddenly, a small fox with bright blue eyes appeared and bowed '' @
       ''to '' @
       kid_name @
       '', saying, 'We've been waiting for you, special one!'' @
       [CHR 0x27],
     ''The fox led '' @
       kid_name @
       '' to a clearing where animals of all kinds had gathered around '' @
       ''an ancient oak tree that sparkled with tiny lights.'',
     [CHR 0x27] @
       ''Our forest is losing its magic,' explained the wise old owl '' @
       ''perched on a branch, 'and you have the kind heart needed to '' @
       ''help restore it.'' @
       [CHR 0x27],
     kid_name @
       '' gently placed their hands on the ancient tree, and immediately '' @
       ''felt a warm glow spreading through their fingers.'',
     ''As '' @
       kid_name @
       '' closed their eyes and wished for the forest's magic to return, '' @
       ''colorful beams of light shot from their fingertips into the '' @
       ''sky.'',
     ''The animals cheered as the forest came alive with vibrant colors '' @
       ''and magical creatures, and they named '' @
       kid_name @
       '' their forever friend and protector of the forest.'']"

definition forest_imagePrompts :: "string \<Rightarrow> string list" where
  "forest_imagePrompts kid_name = [
     ''A child named '' @
       kid_name @
       '' walking into a magical forest with sunlight streaming through '' @
       ''the trees and tiny glowing sprites hiding among the leaves'',
     ''A friendly fox with bright blue eyes bowing to '' @
       kid_name @
       '' on a path covered with golden leaves in an enchanted forest'',
     kid_name @
       '' standing in a forest clearing surrounded by woodland animals '' @
       ''gathered around a giant ancient oak tree that sparkles with '' @
       ''magical lights'',
     kid_name @
       '' with hands on a magical tree trunk, colorful beams of light '' @
       ''shooting from their fingertips into the sky as forest animals '' @
       ''watch in amazement'']"

definition forest_entry :: "string \<Rightarrow> fallback_entry" where
  "forest_entry kid_name = \<lparr>
     e_title = kid_name @
       [CHR 0x27] @
       ''s Magical Forest Adventure'',
     e_moral = ''Kindness to nature brings unexpected friends and rewards.'',
     e_story = forest_story kid_name,
     e_imagePrompts = forest_imagePrompts kid_name\<rparr>"

definition space_story :: "string \<Rightarrow> string list" where
  "space_story kid_name = [
     kid_name @
       '' was gazing at the stars through their telescope when a small, '' @
       ''glowing spaceship landed in their backyard.'',
     ''A friendly alien with purple skin and three eyes emerged, introducing '' @
       ''itself as Zorb from the planet Lumina.'',
     [CHR 0x27] @
       ''We need your help,' Zorb explained to '' @
       kid_name @
       '', 'our planet's cosmic crystal is fading, and without it, our '' @
       ''world will lose all its light.'' @
       [CHR 0x27],
     ''Without hesitation, '' @
       kid_name @
       '' climbed aboard the spaceship, which zoomed through the galaxy '' @
       ''past swirling nebulae and shooting stars.'',
     ''When they arrived at Lumina, '' @
       kid_name @
       '' was amazed to see floating cities and rainbow bridges connecting '' @
       ''crystal mountains.'',
     ''The planet's elders showed '' @
       kid_name @
       '' the dying crystal at the planet's core, which had lost its '' @
       ''sparkle and glow.'',
     kid_name @
       '' remembered the special stardust they had collected from a meteor '' @
       ''shower and sprinkled it gently over the cosmic crystal.'',
     ''The crystal immediately burst into brilliant light, saving Lumina, '' @
       ''and the grateful aliens made '' @
       kid_name @
       '' an honorary citizen of their world, promising they would always '' @
       ''be friends across the stars.'']"

definition space_imagePrompts :: "string \<Rightarrow> string list" where
  "space_imagePrompts kid_name = [
     ''A child named '' @
       kid_name @
       '' looking through a telescope at night when a small glowing spaceship '' @
       ''lands in their backyard with stars twinkling in the sky'',
     kid_name @
       '' meeting a friendly purple alien with three eyes named Zorb '' @
       ''who has emerged from a spaceship with cosmic light surrounding '' @
       ''them'',
     kid_name @
       '' and alien Zorb flying through space in a glowing spaceship, '' @
       ''passing colorful nebulae, planets, and shooting stars'',
     kid_name @
       '' sprinkling magical stardust over a large crystal at the core '' @
       ''of an alien planet, with the crystal bursting into brilliant '' @
       ''rainbow light'']"

definition space_entry :: "string \<Rightarrow> fallback_entry" where
  "space_entry kid_name = \<lparr>
     e_title = kid_name @
       [CHR 0x27] @
       ''s Cosmic Journey'',
     e_moral = ''Courage and friendship can overcome any challenge in the universe.'',
     e_story = space_story kid_name,
     e_imagePrompts = space_imagePrompts kid_name\<rparr>"

definition ocean_story :: "string \<Rightarrow> string list" where
  "ocean_story kid_name = [
     kid_name @
       '' was playing at the beach when they discovered a beautiful shell '' @
       ''that glowed with an otherworldly blue light.'',
     ''When '' @
       kid_name @
       '' picked up the shell, it transformed into a magical pendant '' @
       ''that allowed them to breathe underwater.'',
     ''Curious and excited, '' @
       kid_name @
       '' waded into the ocean and dove beneath the waves, discovering '' @
       ''an entire kingdom of merpeople living in coral palaces.'',
     ''The Mer-King approached '' @
       kid_name @
       '' and explained that their kingdom was in danger from a dark '' @
       ''shadow that was poisoning their waters.'',
     [CHR 0x27] @
       ''Only someone from the surface world with a pure heart can help '' @
       ''us,' said the Mer-King, showing '' @
       kid_name @
       '' how the shadow was spreading through their beautiful home.'',
     ''Determined to help, '' @
       kid_name @
       '' followed the source of the darkness to an old shipwreck where '' @
       ''plastic waste from the human world had collected.'',
     ''Using the magic of the pendant, '' @
       kid_name @
       '' created a whirlpool that gathered all the pollution into a '' @
       ''ball that they could remove from the ocean.'',
     ''The grateful merpeople celebrated '' @
       kid_name @
       [CHR 0x27] @
       ''s bravery with an underwater festival of lights, and promised '' @
       ''that anytime '' @
       kid_name @
       '' returned to the sea, they would be welcomed as a hero.'']"

definition ocean_imagePrompts :: "string \<Rightarrow> string list" where
  "ocean_imagePrompts kid_name = [
     ''A child named '' @
       kid_name @
       '' at the beach finding a beautiful shell that glows with magical '' @
       ''blue light in their hands'',
     kid_name @
       '' swimming underwater wearing a glowing blue pendant, approaching '' @
       ''a magnificent coral palace where merpeople live'',
     kid_name @
       '' and the Mer-King looking concerned at a dark shadow spreading '' @
       ''through the colorful underwater kingdom'',
     kid_name @
       '' creating a magical whirlpool underwater that collects pollution, '' @
       ''surrounded by grateful merpeople with colorful tails'']"

definition ocean_entry :: "string \<Rightarrow> fallback_entry" where
  "ocean_entry kid_name = \<lparr>
     e_title = kid_name @
       '' and the Underwater Kingdom'',
     e_moral = ''True friendship means helping others in need, no matter how '' @
       ''different they may be.'',
     e_story = ocean_story kid_name,
     e_imagePrompts = ocean_imagePrompts kid_name\<rparr>"

definition kingdom_story :: "string \<Rightarrow> string list" where
  "kingdom_story kid_name = [
     ''In a kingdom far away, everyone was afraid of the dragon that '' @
       ''lived in the mountain cave, except for '' @
       kid_name @
       '', who was curious rather than frightened.'',
     ''One day, '' @
       kid_name @
       '' decided to visit the dragon, climbing the winding mountain '' @
       ''path with only a lantern and a basket of freshly baked cookies.'',
     ''Inside the cave, '' @
       kid_name @
       '' discovered not a fearsome beast, but a sad dragon named Ember '' @
       ''who was crying glittering tears that turned into gemstones when '' @
       ''they hit the ground.'',
     [CHR 0x27] @
       ''Everyone is afraid of me,' Ember explained to '' @
       kid_name @
       '', 'but I'm actually lonely and just want to make friends with '' @
       ''the people in the kingdom.'' @
       [CHR 0x27],
     kid_name @
       '' had an idea and invited Ember to visit the kingdom during the '' @
       ''annual festival, promising that they would help everyone see '' @
       ''how gentle the dragon truly was.'',
     ''When the festival day arrived, '' @
       kid_name @
       '' led Ember to the kingdom square where people initially ran '' @
       ''away in fear, hiding behind market stalls and castle walls.'',
     kid_name @
       '' bravely stood beside Ember and explained to everyone that the '' @
       ''dragon only wanted friendship and could help the kingdom with '' @
       ''its magical fire that could forge the strongest tools and most '' @
       ''beautiful art.'',
     ''Slowly, the people approached and welcomed Ember, and from that '' @
       ''day forward, the kingdom flourished as '' @
       kid_name @
       '' and Ember taught everyone that appearances can be deceiving '' @
       ''and friendship can be found in the most unexpected places.'']"

definition kingdom_imagePrompts :: "string \<Rightarrow> string list" where
  "kingdom_imagePrompts kid_name = [
     ''A child named '' @
       kid_name @
       '' climbing a mountain path with a lantern and basket of cookies, '' @
       ''approaching a cave with a faint glow coming from inside'',
     kid_name @
       '' sitting beside a gentle dragon named Ember inside a cave, with '' @
       ''the dragon crying glittering tears that turn into gemstones'',
     kid_name @
       '' leading a colorful dragon named Ember into a medieval kingdom '' @
       ''during a festival, with people hiding behind market stalls'',
     kid_name @
       '' and dragon Ember surrounded by smiling villagers in a medieval '' @
       ''kingdom square, with the dragon using magical fire to create '' @
       ''beautiful art'']"

definition kingdom_entry :: "string \<Rightarrow> fallback_entry" where
  "kingdom_entry kid_name = \<lparr>
     e_title = kid_name @
       '' and the Dragon's Gift'',
     e_moral = ''True courage means facing your fears to help others.'',
     e_story = kingdom_story kid_name,
     e_imagePrompts = kingdom_imagePrompts kid_name\<rparr>"

definition dinosaur_story :: "string \<Rightarrow> string list" where
  "dinosaur_story kid_name = [
     kid_name @
       '' was digging in their backyard when their shovel hit something '' @
       ''hard that turned out to be an unusual egg-shaped stone with '' @
       ''swirling patterns.'',
     ''That night, the stone began to glow and pulse with light, and '' @
       ''suddenly '' @
       kid_name @
       '' found themselves transported to a prehistoric world filled '' @
       ''with towering trees and giant ferns.'',
     ''A baby Triceratops nudged '' @
       kid_name @
       [CHR 0x27] @
       ''s hand, looking up with friendly eyes that seemed to ask for '' @
       ''help finding its family.'',
     kid_name @
       '' and the baby dinosaur set off through the lush jungle, crossing '' @
       ''bubbling lava streams and avoiding quicksand pits.'',
     ''Along the way, they met other dinosaurs '' @
       [CHR 0xC3, CHR 0xA2, CHR 0xE2, CHR 0x82, CHR 0xAC, CHR 0xE2, CHR 0x80, CHR 0x9C] @
       '' a helpful Pteranodon that showed them the way from above, and '' @
       ''a gentle Brachiosaurus that helped them cross a wide river.'',
     ''Suddenly, the ground began to shake as a Tyrannosaurus Rex appeared, '' @
       ''but instead of being scary, the T-Rex had a thorn stuck in its '' @
       ''foot and was roaring in pain.'',
     kid_name @
       '' bravely approached the mighty dinosaur and carefully removed '' @
       ''the thorn, earning a grateful nod from the T-Rex who then led '' @
       ''them to the Triceratops herd.'',
     ''After a joyful reunion with the baby's family, the stone began '' @
       ''to glow again, and '' @
       kid_name @
       '' was transported home with a tiny dinosaur footprint fossil '' @
       ''as a reminder of their amazing adventure.'']"

definition dinosaur_imagePrompts :: "string \<Rightarrow> string list" where
  "dinosaur_imagePrompts kid_name = [
     ''A child named '' @
       kid_name @
       '' in their backyard finding a glowing egg-shaped stone with swirling '' @
       ''patterns while digging'',
     kid_name @
       '' in a prehistoric jungle with a baby Triceratops nudging their '' @
       ''hand, surrounded by giant ferns and towering trees'',
     kid_name @
       '' and a baby Triceratops approaching a T-Rex with a thorn in '' @
       ''its foot in a prehistoric landscape with volcanoes in the background'',
     kid_name @
       '' surrounded by a herd of Triceratops in a prehistoric setting, '' @
       ''holding a glowing stone as it begins to transport them home'']"

definition dinosaur_entry :: "string \<Rightarrow> fallback_entry" where
  "dinosaur_entry kid_name = \<lparr>
     e_title = kid_name @
       [CHR 0x27] @
       ''s Prehistoric Adventure'',
     e_moral = ''Teamwork and understanding can overcome the biggest challenges.'',
     e_story = dinosaur_story kid_name,
     e_imagePrompts = dinosaur_imagePrompts kid_name\<rparr>"

definition length_mapping :: "(string \<times> nat) list" where
  "length_mapping = [(''short'', 6), (''medium'', 8), (''long'', 12)]"

definition fallback_stories :: "string \<Rightarrow> (string \<times> fallback_entry) list" where
  "fallback_stories kid_name =
     [(''forest'', forest_entry kid_name),
      (''space'', space_entry kid_name),
      (''ocean'', ocean_entry kid_name),
      (''kingdom'', kingdom_entry kid_name),
      (''dinosaur'', dinosaur_entry kid_name)]"

text \<open>The two padding loops, \<open>while len(xs) < n: xs.append(x)\<close>.\<close>

function append_until :: "nat \<Rightarrow> 'a \<Rightarrow> 'a list \<Rightarrow> 'a list" where
  "append_until n x xs = (if length xs < n then append_until n x (xs @ [x]) else xs)"
  by pat_completeness auto
termination
  by (relation "measure (\<lambda>(n, x, xs). n - length xs)") auto

declare append_until.simps [simp del]

definition filler_sentence :: "string \<Rightarrow> string" where
  "filler_sentence kid_name =
     kid_name @ '' had an amazing adventure and couldn't wait to tell everyone about it.''"

definition filler_prompt :: "string \<Rightarrow> string \<Rightarrow> string" where
  "filler_prompt kid_name theme =
     kid_name @ '' having a wonderful adventure in a magical '' @ theme @ '' setting.''"

text \<open>The shape correction of \<open>create_fallback_story\<close> (the \<open>if len(...) != sentence_count\<close>
  block): truncate both lists, or pad both.\<close>

definition shape_entry :: "string \<Rightarrow> string \<Rightarrow> nat \<Rightarrow> fallback_entry \<Rightarrow> fallback_entry" where
  "shape_entry kid_name theme sentence_count fallback_story =
     (if length (e_story fallback_story) \<noteq> sentence_count then
        (if length (e_story fallback_story) > sentence_count then
           (let img_count = sentence_count div 2 in
            fallback_story\<lparr>e_story := take sentence_count (e_story fallback_story),
                           e_imagePrompts := take img_count (e_imagePrompts fallback_story)\<rparr>)
         else
           (let img_count = sentence_count div 2 in
            fallback_story\<lparr>e_story :=
                             append_until sentence_count (filler_sentence kid_name)
                               (e_story fallback_story),
                           e_imagePrompts :=
                             append_until img_count (filler_prompt kid_name theme)
                               (e_imagePrompts fallback_story)\<rparr>))
      else fallback_story)"

text \<open>
  \<open>create_fallback_story\<close>. The result is a sum so that the \<open>KeyError\<close> of
  \<open>fallback_stories[theme]\<close> is a branch of the model; \<open>story_type\<close>,
  \<open>special_ingredients\<close> and \<open>child_description\<close> are accepted and unused, as in the source.
\<close>

definition create_fallback_story ::
  "string \<Rightarrow> string \<Rightarrow> string \<Rightarrow> string \<Rightarrow> string \<Rightarrow> string \<Rightarrow> string + Story"
where
  "create_fallback_story kid_name theme story_type story_length special_ingredients
       child_description =
     (let sentence_count = dict_get length_mapping story_length 8;
          theme' = (if \<not> dict_contains (fallback_stories kid_name) theme
                    then ''forest'' else theme)
      in case dict_item (fallback_stories kid_name) theme' of
           Inl key_error \<Rightarrow> Inl key_error
         | Inr fallback_story \<Rightarrow>
             (let shaped = shape_entry kid_name theme' sentence_count fallback_story;
                  placeholder_images = replicate (length (e_imagePrompts shaped)) None
              in Inr (Story_init (e_title shaped) (e_moral shaped) (e_story shaped)
                        (e_imagePrompts shaped) (Some placeholder_images))))"

section \<open>Serialization\<close>

text \<open>
  \<open>base64.b64encode\<close> (RFC 4648, standard alphabet, \<open>=\<close> padding) on a list of bytes;
  the result is ASCII, so \<open>.decode('utf-8')\<close> changes nothing.
\<close>

definition b64_alphabet :: string where
  "b64_alphabet = ''ABCDEFGHIJKLMNOPQRSTUVWXYZabcdefghijklmnopqrstuvwxyz0123456789+/''"

definition b64char :: "nat \<Rightarrow> char" where
  "b64char n = b64_alphabet ! n"

fun b64encode :: "byte list \<Rightarrow> string" where
  "b64encode [] = []"
| "b64encode [a] =
     [b64char (unat a div 4), b64char (unat a mod 4 * 16), CHR ''='', CHR ''='']"
| "b64encode [a, b] =
     [b64char (unat a div 4), b64char (unat a mod 4 * 16 + unat b div 16),
      b64char (unat b mod 16 * 4), CHR ''='']"
| "b64encode (a # b # c # rest) =
     [b64char (unat a div 4), b64char (unat a mod 4 * 16 + unat b div 16),
      b64char (unat b mod 16 * 4 + unat c div 64), b64char (unat c mod 64)]
     @ b64encode rest"

text \<open>Python truthiness of an \<open>Optional[bytes]\<close>: \<open>None\<close> and \<open>b''\<close> are false.\<close>

definition truthy :: "byte list option \<Rightarrow> bool" where
  "truthy img = (case img of None \<Rightarrow> False | Some bs \<Rightarrow> bs \<noteq> [])"

text \<open>The dict that \<open>Story.to_dict\<close> returns has five fixed keys: a record.\<close>

record story_dict =
  d_title :: string
  d_moral :: string
  d_story :: "string list"
  d_imagePrompts :: "string list"
  d_images :: "string option list"

definition to_dict :: "Story \<Rightarrow> story_dict" where
  "to_dict self =
     \<lparr>d_title = title self, d_moral = moral self, d_story = story self,
      d_imagePrompts = imagePrompts self,
      d_images = map (\<lambda>img. if truthy img then Some (b64encode (the img)) else None)
                   (images self)\<rparr>"

text \<open>
  Modelled from the spec: the way back from the transport form, which the repository does
  not contain. It is standard base64 decoding (\<open>None\<close> on text that is not base64) applied
  to every non-null image, the other fields taken as they are.
\<close>

definition b64value :: "char \<Rightarrow> nat option" where
  "b64value c = map_of (zip b64_alphabet [0..<64]) c"

fun b64decode :: "string \<Rightarrow> byte list option" where
  "b64decode [] = Some []"
| "b64decode (c0 # c1 # c2 # c3 # rest) =
     (if rest = [] \<and> c2 = CHR ''='' \<and> c3 = CHR ''='' then
        (case (b64value c0, b64value c1) of
           (Some v0, Some v1) \<Rightarrow> Some [of_nat (v0 * 4 + v1 div 16)]
         | _ \<Rightarrow> None)
      else if rest = [] \<and> c3 = CHR ''='' then
        (case (b64value c0, b64value c1, b64value c2) of
           (Some v0, Some v1, Some v2) \<Rightarrow>
             Some [of_nat (v0 * 4 + v1 div 16), of_nat (v1 mod 16 * 16 + v2 div 4)]
         | _ \<Rightarrow> None)
      else
        (case (b64value c0, b64value c1, b64value c2, b64value c3, b64decode rest) of
           (Some v0, Some v1, Some v2, Some v3, Some bs) \<Rightarrow>
             Some (of_nat (v0 * 4 + v1 div 16) # of_nat (v1 mod 16 * 16 + v2 div 4)
                   # of_nat (v2 mod 4 * 64 + v3) # bs)
         | _ \<Rightarrow> None))"
| "b64decode _ = None"

definition decode_image :: "string option \<Rightarrow> byte list option option" where
  "decode_image enc = (case enc of None \<Rightarrow> Some None | Some s \<Rightarrow> map_option Some (b64decode s))"

definition from_dict :: "story_dict \<Rightarrow> Story option" where
  "from_dict d =
     (case those (map decode_image (d_images d)) of
        None \<Rightarrow> None
      | Some imgs \<Rightarrow>
          Some \<lparr>title = d_title d, moral = d_moral d, story = d_story d,
                imagePrompts = d_imagePrompts d, images = imgs\<rparr>)"

section \<open>The generation backend and the world\<close>

text \<open>
  The Gemini client is outside the program. A response carries \<open>response.text\<close> (\<open>resp_text\<close>, empty
  when the source sees \<open>None\<close> or \<open>''\<close>) and the parts of its first candidate, each part
  being its \<open>inline_data.data\<close> or \<open>None\<close> when the part has no inline data (no candidate,
  no content, no parts: the empty list). A call either raises an exception, given by its
  \<open>str\<close>, or returns a response.
\<close>

datatype model = GEMINI_TEXT_MODEL | GEMINI_VISION_MODEL | GEMINI_IMAGE_MODEL

record response =
  resp_text :: string
  resp_parts :: "byte list option list"

datatype outcome = Raises string | Returns response

text \<open>
  The fields of the JSON object that \<open>json.loads\<close> returns; \<open>None\<close> is an absent key, whose
  read raises \<open>KeyError\<close>. Values of another JSON type than the \<open>Story\<close> constructor
  annotates are not modelled.
\<close>

record story_json =
  j_title :: "string option"
  j_moral :: "string option"
  j_story :: "string list option"
  j_imagePrompts :: "string list option"

text \<open>
  Everything the module takes from outside: the two globals set at import
  (\<open>client_set\<close> is \<open>client is not None\<close>), the outcome of the n-th
  \<open>client.models.generate_content\<close> call made with each model constant, and the library
  functions \<open>Image.open\<close>, \<open>json.loads\<close> and \<open>str.strip\<close> (\<open>Inl\<close> is the \<open>str\<close> of the
  exception raised). The outcome of a call is indexed by its position only; the theorems
  hold for every such sequence, so for whatever the backend answers to the requests.
\<close>

record env =
  API_INITIALIZED :: bool
  client_set :: bool
  generate_content :: "model \<Rightarrow> nat \<Rightarrow> outcome"
  Image_open :: "byte list \<Rightarrow> string + unit"
  json_loads :: "string \<Rightarrow> string + story_json"
  strip :: "string \<Rightarrow> string"

text \<open>
  The effects: how many calls each model has received, and the \<open>time.sleep\<close> calls in
  order, each tagged with the statement that made it (a ghost tag: the source sleeps the
  same way in all four places).
\<close>

datatype sleeper = Photo_retry | Story_retry | Image_retry | Image_pacing

record world =
  calls :: "model \<Rightarrow> nat"
  sleeps :: "(sleeper \<times> nat) list"

definition call :: "env \<Rightarrow> model \<Rightarrow> world \<Rightarrow> outcome \<times> world" where
  "call e m w = (generate_content e m (calls w m), w\<lparr>calls := (calls w)(m := Suc (calls w m))\<rparr>)"

definition sleep :: "sleeper \<Rightarrow> nat \<Rightarrow> world \<Rightarrow> world" where
  "sleep who delay w = w\<lparr>sleeps := sleeps w @ [(who, delay)]\<rparr>"

definition max_retries :: nat where
  "max_retries = 3"

definition base_delay :: nat where
  "base_delay = 2"

text \<open>
  The retry step shared by the three loops:
  \<open>if attempt < max_retries - 1: time.sleep(base_delay * (2 ** attempt))\<close>.
\<close>

definition backoff :: "sleeper \<Rightarrow> nat \<Rightarrow> world \<Rightarrow> world" where
  "backoff who attempt w =
     (if attempt < max_retries - 1 then sleep who (base_delay * 2 ^ attempt) w else w)"

text \<open>
  \<open>"429" in str(e) or "quota" in str(e).lower()\<close>. Only the letters of \<open>quota\<close> matter to
  the test, and none of them is the lower case of a non-ASCII character, so lowering
  ASCII letters decides it.
\<close>

definition lower :: "string \<Rightarrow> string" where
  "lower s = map (\<lambda>c. if 65 \<le> (of_char c :: nat) \<and> (of_char c :: nat) \<le> 90
                        then char_of (of_char c + (32 :: nat)) else c) s"

definition quota_signature :: "string \<Rightarrow> bool" where
  "quota_signature msg = (sublist ''429'' msg \<or> sublist ''quota'' (lower msg))"

definition default_description :: string where
  "default_description = ''A cheerful child with a bright smile and curious eyes.''"

section \<open>The photo analyzer\<close>

text \<open>The \<open>for attempt in range(max_retries)\<close> loop of \<open>analyze_photo\<close>, on the list of
  attempts still to run; falling out of the loop, or \<open>break\<close>, returns the default.\<close>

fun analyze_photo_loop :: "env \<Rightarrow> nat list \<Rightarrow> world \<Rightarrow> string \<times> world" where
  "analyze_photo_loop e [] w = (default_description, w)"
| "analyze_photo_loop e (attempt # rest) w =
     (case call e GEMINI_VISION_MODEL w of
        (Returns response, w1) \<Rightarrow>
          if resp_text response \<noteq> [] then (strip e (resp_text response), w1)
          else analyze_photo_loop e rest (backoff Photo_retry attempt w1)
      | (Raises retry_error, w1) \<Rightarrow>
          if quota_signature retry_error then (default_description, w1)
          else analyze_photo_loop e rest (backoff Photo_retry attempt w1))"

definition analyze_photo :: "env \<Rightarrow> byte list \<Rightarrow> world \<Rightarrow> string \<times> world" where
  "analyze_photo e photo_bytes w =
     (if \<not> API_INITIALIZED e \<or> \<not> client_set e then (default_description, w)
      else case Image_open e photo_bytes of
             Inl err \<Rightarrow> (default_description, w)
           | Inr opened \<Rightarrow> analyze_photo_loop e [0..<max_retries] w)"

section \<open>The illustration generator\<close>

text \<open>The first part with inline data gives \<open>image_data\<close>; without one it stays \<open>None\<close>.\<close>

definition first_inline_data :: "byte list option list \<Rightarrow> byte list option" where
  "first_inline_data ps = (case find (\<lambda>p. p \<noteq> None) ps of Some p \<Rightarrow> p | None \<Rightarrow> None)"

text \<open>The attempts for one prompt. \<open>imgs\<close> is the list \<open>images\<close> that the source appends to;
  a \<open>break\<close> returns at once.\<close>

fun image_attempts ::
  "env \<Rightarrow> nat list \<Rightarrow> byte list option list \<Rightarrow> world \<Rightarrow> byte list option list \<times> world"
where
  "image_attempts e [] imgs w = (imgs, w)"
| "image_attempts e (attempt # rest) imgs w =
     (case call e GEMINI_IMAGE_MODEL w of
        (Returns response, w1) \<Rightarrow>
          (let image_data = first_inline_data (resp_parts response) in
           if truthy image_data then (imgs @ [image_data], w1)
           else if attempt < max_retries - 1
             then image_attempts e rest imgs (sleep Image_retry (base_delay * 2 ^ attempt) w1)
           else image_attempts e rest (imgs @ [None]) w1)
      | (Raises retry_error, w1) \<Rightarrow>
          if quota_signature retry_error then (imgs @ [None], w1)
          else if attempt < max_retries - 1
            then image_attempts e rest imgs (sleep Image_retry (base_delay * 2 ^ attempt) w1)
          else image_attempts e rest (imgs @ [None]) w1)"

text \<open>The loop over the prompts, with the pause of one second after each.\<close>

fun generate_images_loop ::
  "env \<Rightarrow> string list \<Rightarrow> byte list option list \<Rightarrow> world \<Rightarrow> byte list option list \<times> world"
where
  "generate_images_loop e [] imgs w = (imgs, w)"
| "generate_images_loop e (prompt # rest) imgs w =
     (case image_attempts e [0..<max_retries] imgs w of
        (imgs1, w1) \<Rightarrow> generate_images_loop e rest imgs1 (sleep Image_pacing 1 w1))"

text \<open>\<open>generate_images\<close>. Nothing in the body raises outside the inner \<open>try\<close>, so the outer
  handler is not reached.\<close>

definition generate_images ::
  "env \<Rightarrow> string list \<Rightarrow> string \<Rightarrow> world \<Rightarrow> byte list option list \<times> world"
where
  "generate_images e prompts story_context w =
     (if \<not> API_INITIALIZED e \<or> \<not> client_set e then (replicate (length prompts) None, w)
      else generate_images_loop e prompts [] w)"

section \<open>The narrative generator\<close>

definition strip_fences :: "string \<Rightarrow> string" where
  "strip_fences t =
     (let t1 = (if prefix ''```json'' t then drop 7 t else t)
      in if suffix ''```'' t1 then take (length t1 - 3) t1 else t1)"

definition key_error :: "string \<Rightarrow> string" where
  "key_error k = [CHR 0x27] @ k @ [CHR 0x27]"

definition join :: "string \<Rightarrow> string list \<Rightarrow> string" where
  "join sep xs = (case xs of [] \<Rightarrow> [] | y # ys \<Rightarrow> foldl (\<lambda>acc x. acc @ sep @ x) y ys)"

text \<open>What the body of the \<open>try\<close> does in one attempt: it returns the story, raises, or
  reaches \<open>continue\<close>.\<close>

datatype flow = Return Story | Raise string | Continue

definition story_attempt :: "env \<Rightarrow> nat \<Rightarrow> world \<Rightarrow> flow \<times> world" where
  "story_attempt e attempt w =
     (case call e GEMINI_TEXT_MODEL w of
        (Raises err, w1) \<Rightarrow> (Raise err, w1)
      | (Returns response, w1) \<Rightarrow>
          if resp_text response = [] then
            (if attempt < max_retries - 1
             then (Continue, sleep Story_retry (base_delay * 2 ^ attempt) w1)
             else (Raise ''Failed to generate story content'', w1))
          else
            (case json_loads e (strip_fences (strip e (resp_text response))) of
               Inl err \<Rightarrow> (Raise err, w1)
             | Inr story_data \<Rightarrow>
                 (case j_imagePrompts story_data of
                    None \<Rightarrow> (Raise (key_error ''imagePrompts''), w1)
                  | Some prompts \<Rightarrow>
                      (case j_story story_data of
                         None \<Rightarrow> (Raise (key_error ''story''), w1)
                       | Some sentences \<Rightarrow>
                           (case generate_images e prompts (join '' '' sentences) w1 of
                              (imgs, w2) \<Rightarrow>
                                (case j_title story_data of
                                   None \<Rightarrow> (Raise (key_error ''title''), w2)
                                 | Some t \<Rightarrow>
                                     (case j_moral story_data of
                                        None \<Rightarrow> (Raise (key_error ''moral''), w2)
                                      | Some m \<Rightarrow>
                                          (Return (Story_init t m sentences prompts (Some imgs)),
                                           w2))))))))"

text \<open>
  The retry loop of \<open>generate_story\<close> with its \<open>except\<close> clause. \<open>fallback\<close> is what
  \<open>create_fallback_story\<close> returns for this request. A function that falls out of the
  loop returns \<open>None\<close>.
\<close>

fun generate_story_loop ::
  "env \<Rightarrow> string + Story \<Rightarrow> nat list \<Rightarrow> world \<Rightarrow> (string + Story option) \<times> world"
where
  "generate_story_loop e fallback [] w = (Inr None, w)"
| "generate_story_loop e fallback (attempt # rest) w =
     (case story_attempt e attempt w of
        (Return st, w1) \<Rightarrow> (Inr (Some st), w1)
      | (Continue, w1) \<Rightarrow> generate_story_loop e fallback rest w1
      | (Raise err, w1) \<Rightarrow>
          if quota_signature err then (map_sum id Some fallback, w1)
          else if attempt < max_retries - 1
            then generate_story_loop e fallback rest
                   (sleep Story_retry (base_delay * 2 ^ attempt) w1)
          else (Inl (''Failed to generate story after 3 attempts: '' @ err), w1))"

text \<open>\<open>generate_story\<close>: the check of the client, the loop, and the outer \<open>except\<close>, which
  turns a quota error into the fallback story and raises any other again.\<close>

definition generate_story ::
  "env \<Rightarrow> string \<Rightarrow> string \<Rightarrow> string \<Rightarrow> string \<Rightarrow> string \<Rightarrow> string \<Rightarrow> string \<Rightarrow> world
     \<Rightarrow> (string + Story option) \<times> world"
where
  "generate_story e kid_name age_level theme story_type story_length special_ingredients
       child_description w =
     (let fallback = create_fallback_story kid_name theme story_type story_length
                       special_ingredients child_description
      in case (if \<not> API_INITIALIZED e \<or> \<not> client_set e
               then (Inl ''Gemini API not initialized'', w)
               else generate_story_loop e fallback [0..<max_retries] w) of
           (Inr result, w1) \<Rightarrow> (Inr result, w1)
         | (Inl err, w1) \<Rightarrow>
             if quota_signature err then (map_sum id Some fallback, w1) else (Inl err, w1))"

section \<open>The orchestrator\<close>

definition process_story_request ::
  "env \<Rightarrow> string \<Rightarrow> byte list \<Rightarrow> string \<Rightarrow> string \<Rightarrow> string \<Rightarrow> string \<Rightarrow> string \<Rightarrow> world
     \<Rightarrow> (string + story_dict) \<times> world"
where
  "process_story_request e kid_name kid_photo age_level theme story_type story_length
       special_ingredients w =
     (if \<not> API_INITIALIZED e then
        (map_sum id to_dict
           (create_fallback_story kid_name theme story_type story_length special_ingredients
              default_description), w)
      else
        (case analyze_photo e kid_photo w of
           (child_description, w1) \<Rightarrow>
             (case generate_story e kid_name age_level theme story_type story_length
                     special_ingredients child_description w1 of
                (Inr (Some st), w2) \<Rightarrow> (Inr (to_dict st), w2)
              | (failed, w2) \<Rightarrow>
                  (let child_description' =
                         (if child_description \<noteq> [] then child_description
                          else default_description)
                   in (map_sum id to_dict
                         (create_fallback_story kid_name theme story_type story_length
                            special_ingredients child_description'), w2)))))"

section \<open>Reading the world\<close>

text \<open>The durations slept by one of the four \<open>time.sleep\<close> statements, in order, and the
  exponential delays \<open>base_delay * 2 ** attempt\<close> of the first \<open>k\<close> attempts.\<close>

definition slept :: "sleeper \<Rightarrow> world \<Rightarrow> nat list" where
  "slept who w = map snd (filter (\<lambda>p. fst p = who) (sleeps w))"

definition backoffs :: "nat \<Rightarrow> nat list" where
  "backoffs k = map (\<lambda>attempt. base_delay * 2 ^ attempt) [0..<k]"

text \<open>
  What the n-th call of the text model means for the attempt of \<open>generate_story\<close> that
  makes it. The attempt fails with an error that has no quota signature when the call
  raises one, when the text is empty, when \<open>json.loads\<close> raises one, or when one of the
  four keys is absent; it fails with a quota signature when the call or \<open>json.loads\<close>
  raises an error with one; it succeeds with the four fields otherwise.
\<close>

definition story_call_fails :: "env \<Rightarrow> nat \<Rightarrow> bool" where
  "story_call_fails e n =
     (case generate_content e GEMINI_TEXT_MODEL n of
        Raises err \<Rightarrow> \<not> quota_signature err
      | Returns response \<Rightarrow>
          resp_text response = [] \<or>
          (case json_loads e (strip_fences (strip e (resp_text response))) of
             Inl err \<Rightarrow> \<not> quota_signature err
           | Inr d \<Rightarrow> j_imagePrompts d = None \<or> j_story d = None
                       \<or> j_title d = None \<or> j_moral d = None))"

definition story_call_quota :: "env \<Rightarrow> nat \<Rightarrow> bool" where
  "story_call_quota e n =
     (case generate_content e GEMINI_TEXT_MODEL n of
        Raises err \<Rightarrow> quota_signature err
      | Returns response \<Rightarrow>
          resp_text response \<noteq> [] \<and>
          (case json_loads e (strip_fences (strip e (resp_text response))) of
             Inl err \<Rightarrow> quota_signature err
           | Inr d \<Rightarrow> False))"

definition story_call_succeeds :: "env \<Rightarrow> nat \<Rightarrow> story_json \<Rightarrow> bool" where
  "story_call_succeeds e n d =
     (case generate_content e GEMINI_TEXT_MODEL n of
        Raises err \<Rightarrow> False
      | Returns response \<Rightarrow>
          resp_text response \<noteq> [] \<and>
          json_loads e (strip_fences (strip e (resp_text response))) = Inr d \<and>
          j_imagePrompts d \<noteq> None \<and> j_story d \<noteq> None \<and>
          j_title d \<noteq> None \<and> j_moral d \<noteq> None)"

text \<open>The same for the n-th call of the vision model in \<open>analyze_photo\<close>, and for the n-th
  call of the image model in \<open>generate_images\<close> (where a response without image data is a
  failure, and a success yields the data).\<close>

definition photo_call_fails :: "env \<Rightarrow> nat \<Rightarrow> bool" where
  "photo_call_fails e n =
     (case generate_content e GEMINI_VISION_MODEL n of
        Raises err \<Rightarrow> \<not> quota_signature err
      | Returns response \<Rightarrow> resp_text response = [])"

definition photo_call_quota :: "env \<Rightarrow> nat \<Rightarrow> bool" where
  "photo_call_quota e n =
     (case generate_content e GEMINI_VISION_MODEL n of
        Raises err \<Rightarrow> quota_signature err
      | Returns response \<Rightarrow> False)"

definition image_call_quota :: "env \<Rightarrow> nat \<Rightarrow> bool" where
  "image_call_quota e n =
     (case generate_content e GEMINI_IMAGE_MODEL n of
        Raises err \<Rightarrow> quota_signature err
      | Returns response \<Rightarrow> False)"

definition image_call_fails :: "env \<Rightarrow> nat \<Rightarrow> bool" where
  "image_call_fails e n =
     (case generate_content e GEMINI_IMAGE_MODEL n of
        Raises err \<Rightarrow> \<not> quota_signature err
      | Returns response \<Rightarrow> \<not> truthy (first_inline_data (resp_parts response)))"

definition image_call_succeeds :: "env \<Rightarrow> nat \<Rightarrow> byte list \<Rightarrow> bool" where
  "image_call_succeeds e n img =
     (case generate_content e GEMINI_IMAGE_MODEL n of
        Raises err \<Rightarrow> False
      | Returns response \<Rightarrow>
          first_inline_data (resp_parts response) = Some img \<and> img \<noteq> [])"

section \<open>Properties of the fallback content provider\<close>

lemma append_until_eq: "append_until n x xs = xs @ replicate (n - length xs) x"
proof (induction n x xs rule: append_until.induct)
  case (1 n x xs)
  show ?case
  proof (cases "length xs < n")
    case True
    then have "n - length xs = Suc (n - Suc (length xs))" by simp
    with True 1 show ?thesis
      by (subst append_until.simps) (simp add: replicate_app_Cons_same)
  next
    case False
    then show ?thesis by (subst append_until.simps) simp
  qed
qed

lemma entry_lengths:
  "length (forest_story k) = 8" "length (forest_imagePrompts k) = 4"
  "length (space_story k) = 8" "length (space_imagePrompts k) = 4"
  "length (ocean_story k) = 8" "length (ocean_imagePrompts k) = 4"
  "length (kingdom_story k) = 8" "length (kingdom_imagePrompts k) = 4"
  "length (dinosaur_story k) = 8" "length (dinosaur_imagePrompts k) = 4"
  by (simp_all add: forest_story_def forest_imagePrompts_def space_story_def
      space_imagePrompts_def ocean_story_def ocean_imagePrompts_def kingdom_story_def
      kingdom_imagePrompts_def dinosaur_story_def dinosaur_imagePrompts_def)

lemma entry_fields:
  "e_story (forest_entry k) = forest_story k"
  "e_imagePrompts (forest_entry k) = forest_imagePrompts k"
  "e_story (space_entry k) = space_story k"
  "e_imagePrompts (space_entry k) = space_imagePrompts k"
  "e_story (ocean_entry k) = ocean_story k"
  "e_imagePrompts (ocean_entry k) = ocean_imagePrompts k"
  "e_story (kingdom_entry k) = kingdom_story k"
  "e_imagePrompts (kingdom_entry k) = kingdom_imagePrompts k"
  "e_story (dinosaur_entry k) = dinosaur_story k"
  "e_imagePrompts (dinosaur_entry k) = dinosaur_imagePrompts k"
  by (simp_all add: forest_entry_def space_entry_def ocean_entry_def kingdom_entry_def
      dinosaur_entry_def)

lemma map_of_fallback_stories:
  "map_of (fallback_stories k) theme =
     (if theme = ''forest'' then Some (forest_entry k)
      else if theme = ''space'' then Some (space_entry k)
      else if theme = ''ocean'' then Some (ocean_entry k)
      else if theme = ''kingdom'' then Some (kingdom_entry k)
      else if theme = ''dinosaur'' then Some (dinosaur_entry k)
      else None)"
  by (simp add: fallback_stories_def)

lemma sentence_count_cases:
  "dict_get length_mapping sl 8 =
     (if sl = ''short'' then 6 else if sl = ''medium'' then 8 else if sl = ''long'' then 12
      else 8)"
  by (simp add: dict_get_def length_mapping_def)

lemma sentence_count_range: "dict_get length_mapping sl 8 \<in> {6, 8, 12}"
  by (simp add: sentence_count_cases)

lemma shape_entry_lengths:
  assumes "length (e_story e) = 8" "length (e_imagePrompts e) = 4" "n \<in> {6, 8, 12}"
  shows "length (e_story (shape_entry k th n e)) = n"
    and "length (e_imagePrompts (shape_entry k th n e)) = n div 2"
  using assms by (auto simp add: shape_entry_def append_until_eq Let_def)

lemma shape_entry_fields:
  assumes "length (e_story e) = 8" "length (e_imagePrompts e) = 4"
  shows "e_title (shape_entry k th n e) = e_title e"
    and "e_moral (shape_entry k th n e) = e_moral e"
    and "e_story (shape_entry k th 6 e) = take 6 (e_story e)"
    and "e_story (shape_entry k th 8 e) = e_story e"
    and "e_story (shape_entry k th 12 e) = e_story e @ replicate 4 (filler_sentence k)"
    and "e_imagePrompts (shape_entry k th 6 e) = take 3 (e_imagePrompts e)"
    and "e_imagePrompts (shape_entry k th 8 e) = e_imagePrompts e"
    and "e_imagePrompts (shape_entry k th 12 e)
           = e_imagePrompts e @ replicate 2 (filler_prompt k th)"
  using assms by (simp_all add: shape_entry_def append_until_eq Let_def)

text \<open>The function without its error branch: the lookup after the default cannot fail.\<close>

lemma create_fallback_story_eq:
  "create_fallback_story k theme st sl si cd =
     (let th = (if theme \<in> {''forest'', ''space'', ''ocean'', ''kingdom'', ''dinosaur''}
                then theme else ''forest'');
          e = shape_entry k th (dict_get length_mapping sl 8)
                (case map_of (fallback_stories k) th of Some e \<Rightarrow> e | None \<Rightarrow> forest_entry k)
      in Inr \<lparr>title = e_title e, moral = e_moral e, story = e_story e,
              imagePrompts = e_imagePrompts e,
              images = replicate (length (e_imagePrompts e)) None\<rparr>)"
  by (simp add: create_fallback_story_def dict_item_def dict_contains_def
      map_of_fallback_stories Let_def Story_init_def)

lemma create_fallback_story_total:
  "\<exists>st. create_fallback_story k theme stype sl si cd = Inr st"
  by (simp add: create_fallback_story_eq Let_def)

lemma selected_entry_lengths:
  "length (e_story (case map_of (fallback_stories k) th of
                      Some e \<Rightarrow> e | None \<Rightarrow> forest_entry k)) = 8"
  "length (e_imagePrompts (case map_of (fallback_stories k) th of
                             Some e \<Rightarrow> e | None \<Rightarrow> forest_entry k)) = 4"
  by (simp_all add: map_of_fallback_stories entry_fields entry_lengths)

text \<open>
  Claim C5. For every request the fallback provider returns a story (it does not raise);
  the story has 6, 8 or 12 sentences for \<open>short\<close>, \<open>medium\<close>, \<open>long\<close> and 8 for any other
  \<open>story_length\<close>; there are \<open>len(story) // 2\<close> image prompts, as many images as prompts,
  and every image is null.
\<close>

theorem fallback_story_shape:
  "\<exists>s. create_fallback_story kid_name theme story_type story_length special_ingredients
           child_description = Inr s
       \<and> length (story s) =
           (if story_length = ''short'' then 6 else if story_length = ''medium'' then 8
            else if story_length = ''long'' then 12 else 8)
       \<and> length (imagePrompts s) = length (story s) div 2
       \<and> length (images s) = length (imagePrompts s)
       \<and> images s = replicate (length (imagePrompts s)) None"
  unfolding create_fallback_story_eq Let_def
  using shape_entry_lengths [OF selected_entry_lengths sentence_count_range]
  by (simp add: sentence_count_cases)

theorem fallback_story_shape_witness:
  "\<exists>s. create_fallback_story ''Mia'' ''space'' ''adventure'' ''short'' [] [] = Inr s
       \<and> length (story s) = 6 \<and> length (imagePrompts s) = 3
       \<and> images s = [None, None, None]"
  using fallback_story_shape [of "''Mia''" "''space''" "''adventure''" "''short''" "[]" "[]"]
  by (auto simp add: numeral_3_eq_3)

lemma forest_entry_title:
  "e_title (forest_entry k) = k @ [CHR 0x27] @ ''s Magical Forest Adventure''"
  by (simp add: forest_entry_def)

lemma create_fallback_story_unknown:
  assumes "theme \<notin> {''forest'', ''space'', ''ocean'', ''kingdom'', ''dinosaur''}"
  shows "create_fallback_story k theme st sl si cd =
     (let e = shape_entry k ''forest'' (dict_get length_mapping sl 8) (forest_entry k)
      in Inr \<lparr>title = e_title e, moral = e_moral e, story = e_story e,
              imagePrompts = e_imagePrompts e,
              images = replicate (length (e_imagePrompts e)) None\<rparr>)"
  using assms by (simp add: create_fallback_story_eq map_of_fallback_stories)

lemma create_fallback_story_forest:
  "create_fallback_story k ''forest'' st sl si cd =
     (let e = shape_entry k ''forest'' (dict_get length_mapping sl 8) (forest_entry k)
      in Inr \<lparr>title = e_title e, moral = e_moral e, story = e_story e,
              imagePrompts = e_imagePrompts e,
              images = replicate (length (e_imagePrompts e)) None\<rparr>)"
  by (simp add: create_fallback_story_eq map_of_fallback_stories)

text \<open>
  Claim C6. A theme outside the five keys of \<open>fallback_stories\<close> (\<open>custom\<close> is one) gives
  what the theme \<open>forest\<close> gives: the forest title and moral, and the forest sentences and
  prompts cut to 6 and 3, kept at 8 and 4, or padded to 12 and 6 with the filler sentence
  and the filler prompt for \<open>forest\<close>.
\<close>

theorem unknown_theme_selects_forest:
  assumes "theme \<notin> {''forest'', ''space'', ''ocean'', ''kingdom'', ''dinosaur''}"
  shows "create_fallback_story kid_name theme story_type story_length special_ingredients
           child_description =
         create_fallback_story kid_name ''forest'' story_type story_length special_ingredients
           child_description
       \<and> (\<exists>s. create_fallback_story kid_name theme story_type story_length special_ingredients
                 child_description = Inr s
             \<and> title s = kid_name @ [CHR 0x27] @ ''s Magical Forest Adventure''
             \<and> moral s = e_moral (forest_entry kid_name)
             \<and> story s =
                 (if story_length = ''short'' then take 6 (forest_story kid_name)
                  else if story_length = ''long''
                    then forest_story kid_name @ replicate 4 (filler_sentence kid_name)
                  else forest_story kid_name)
             \<and> imagePrompts s =
                 (if story_length = ''short'' then take 3 (forest_imagePrompts kid_name)
                  else if story_length = ''long''
                    then forest_imagePrompts kid_name
                           @ replicate 2 (filler_prompt kid_name ''forest'')
                  else forest_imagePrompts kid_name))"
proof -
  have len: "length (e_story (forest_entry kid_name)) = 8"
    "length (e_imagePrompts (forest_entry kid_name)) = 4"
    by (simp_all add: entry_fields entry_lengths)
  note sh = shape_entry_fields [OF len]
  show ?thesis
    unfolding create_fallback_story_unknown [OF assms] create_fallback_story_forest Let_def
    by (simp add: sentence_count_cases sh forest_entry_title entry_fields)
qed

theorem unknown_theme_selects_forest_witness:
  "''custom'' \<notin> {''forest'', ''space'', ''ocean'', ''kingdom'', ''dinosaur''}
   \<and> create_fallback_story ''Mia'' ''custom'' ''adventure'' ''long'' [] [] =
       create_fallback_story ''Mia'' ''forest'' ''adventure'' ''long'' [] []"
proof -
  have h: "''custom'' \<notin> {''forest'', ''space'', ''ocean'', ''kingdom'', ''dinosaur''}" by simp
  from unknown_theme_selects_forest [OF h, of "''Mia''" "''adventure''" "''long''" "[]" "[]"]
  have "create_fallback_story ''Mia'' ''custom'' ''adventure'' ''long'' [] [] =
        create_fallback_story ''Mia'' ''forest'' ''adventure'' ''long'' [] []"
    by (rule conjunct1)
  with h show ?thesis by (rule conjI)
qed

text \<open>Occurrences of the name: a literal piece is skipped, the name itself is found.\<close>

lemma all_less_8:
  "(\<forall>i<8. P (i::nat)) \<longleftrightarrow> P 0 \<and> P 1 \<and> P 2 \<and> P 3 \<and> P 4 \<and> P 5 \<and> P 6 \<and> P 7"
proof -
  have "{..<8::nat} = {0, 1, 2, 3, 4, 5, 6, 7}" by auto
  then have "(\<forall>i<8. P i) \<longleftrightarrow> (\<forall>i\<in>{0, 1, 2, 3, 4, 5, 6, 7::nat}. P i)"
    by (metis lessThan_iff)
  then show ?thesis by simp
qed

lemma sublist_skip: "sublist k b \<Longrightarrow> sublist k (a @ b)"
  by (metis append_Nil2 sublist_appendI sublist_order.order_trans)

lemma sublist_here: "sublist k (k @ b)"
  by (metis append_Nil sublist_appendI)

lemmas contains_kid = sublist_here sublist_skip

lemma forest_contains:
  "sublist k (e_title (forest_entry k))"
  "\<forall>p\<in>set (forest_imagePrompts k). sublist k p"
  "\<forall>i<8. i \<noteq> 4 \<longrightarrow> sublist k (forest_story k ! i)"
  by (simp_all add: forest_entry_def forest_imagePrompts_def forest_story_def all_less_8
      contains_kid del: append.simps)

lemma space_contains:
  "sublist k (e_title (space_entry k))"
  "\<forall>p\<in>set (space_imagePrompts k). sublist k p"
  "\<forall>i<8. i \<noteq> 1 \<longrightarrow> sublist k (space_story k ! i)"
  by (simp_all add: space_entry_def space_imagePrompts_def space_story_def all_less_8
      contains_kid del: append.simps)

lemma ocean_contains:
  "sublist k (e_title (ocean_entry k))"
  "\<forall>p\<in>set (ocean_imagePrompts k). sublist k p"
  "\<forall>i<8. sublist k (ocean_story k ! i)"
  by (simp_all add: ocean_entry_def ocean_imagePrompts_def ocean_story_def all_less_8
      contains_kid del: append.simps)

lemma kingdom_contains:
  "sublist k (e_title (kingdom_entry k))"
  "\<forall>p\<in>set (kingdom_imagePrompts k). sublist k p"
  "\<forall>i<8. sublist k (kingdom_story k ! i)"
  by (simp_all add: kingdom_entry_def kingdom_imagePrompts_def kingdom_story_def all_less_8
      contains_kid del: append.simps)

lemma dinosaur_contains:
  "sublist k (e_title (dinosaur_entry k))"
  "\<forall>p\<in>set (dinosaur_imagePrompts k). sublist k p"
  "\<forall>i<8. i \<noteq> 4 \<and> i \<noteq> 5 \<longrightarrow> sublist k (dinosaur_story k ! i)"
  by (simp_all add: dinosaur_entry_def dinosaur_imagePrompts_def dinosaur_story_def all_less_8
      contains_kid del: append.simps)

text \<open>
  Claim C7, as the code has it. For each of the five themes the title and each of the four
  image prompts contain \<open>kid_name\<close>, and so does every one of the eight sentences except
  four that are fixed text, the same for every name: the fifth sentence of \<open>forest\<close>, the
  second of \<open>space\<close>, and the fifth and sixth of \<open>dinosaur\<close> (positions 4, 1, 4 and 5
  counted from 0).
\<close>

theorem kid_name_interpolated:
  assumes "map_of (fallback_stories kid_name) theme = Some entry"
  shows "sublist kid_name (e_title entry)
       \<and> length (e_imagePrompts entry) = 4
       \<and> (\<forall>p\<in>set (e_imagePrompts entry). sublist kid_name p)
       \<and> length (e_story entry) = 8
       \<and> (\<forall>i<8. (theme, i) \<notin> {(''forest'', 4), (''space'', 1), (''dinosaur'', 4),
                                  (''dinosaur'', 5)}
               \<longrightarrow> sublist kid_name (e_story entry ! i))
       \<and> (\<forall>i<8. (theme, i) \<in> {(''forest'', 4), (''space'', 1), (''dinosaur'', 4),
                                  (''dinosaur'', 5)}
               \<longrightarrow> (\<forall>other entry'. map_of (fallback_stories other) theme = Some entry'
                      \<longrightarrow> e_story entry' ! i = e_story entry ! i))"
proof -
  from assms consider
      (forest) "theme = ''forest''" "entry = forest_entry kid_name"
    | (space) "theme = ''space''" "entry = space_entry kid_name"
    | (ocean) "theme = ''ocean''" "entry = ocean_entry kid_name"
    | (kingdom) "theme = ''kingdom''" "entry = kingdom_entry kid_name"
    | (dinosaur) "theme = ''dinosaur''" "entry = dinosaur_entry kid_name"
    by (auto simp add: map_of_fallback_stories split: if_splits)
  then show ?thesis
  proof cases
    case forest
    have fixed: "\<And>other entry'. map_of (fallback_stories other) ''forest'' = Some entry'
        \<Longrightarrow> e_story entry' ! 4 = forest_story kid_name ! 4"
      by (auto simp add: map_of_fallback_stories entry_fields forest_story_def)
    show ?thesis
      unfolding forest
      using forest_contains [of kid_name] fixed
      by (auto simp add: entry_fields entry_lengths)
  next
    case space
    have fixed: "\<And>other entry'. map_of (fallback_stories other) ''space'' = Some entry'
        \<Longrightarrow> e_story entry' ! 1 = space_story kid_name ! 1"
      by (auto simp add: map_of_fallback_stories entry_fields space_story_def)
    show ?thesis
      unfolding space
      using space_contains [of kid_name] fixed
      by (auto simp add: entry_fields entry_lengths)
  next
    case ocean
    show ?thesis
      unfolding ocean
      using ocean_contains [of kid_name]
      by (auto simp add: entry_fields entry_lengths)
  next
    case kingdom
    show ?thesis
      unfolding kingdom
      using kingdom_contains [of kid_name]
      by (auto simp add: entry_fields entry_lengths)
  next
    case dinosaur
    have fixed: "\<And>other entry'. map_of (fallback_stories other) ''dinosaur'' = Some entry'
        \<Longrightarrow> e_story entry' ! 4 = dinosaur_story kid_name ! 4
          \<and> e_story entry' ! 5 = dinosaur_story kid_name ! 5"
      by (auto simp add: map_of_fallback_stories entry_fields dinosaur_story_def)
    show ?thesis
      unfolding dinosaur
      using dinosaur_contains [of kid_name] fixed
      by (auto simp add: entry_fields entry_lengths)
  qed
qed

theorem kid_name_interpolated_witness:
  "map_of (fallback_stories ''Mia'') ''ocean'' = Some (ocean_entry ''Mia'')
   \<and> sublist ''Mia'' (e_title (ocean_entry ''Mia''))
   \<and> length (e_story (ocean_entry ''Mia'')) = 8"
proof -
  have h: "map_of (fallback_stories ''Mia'') ''ocean'' = Some (ocean_entry ''Mia'')"
    by (simp add: map_of_fallback_stories)
  from kid_name_interpolated [OF h]
  have "sublist ''Mia'' (e_title (ocean_entry ''Mia''))
        \<and> length (e_story (ocean_entry ''Mia'')) = 8"
    by blast
  with h show ?thesis by (rule conjI)
qed

text \<open>
  Claim C7 as stated fails: with the name \<open>Mia\<close> the fifth sentence of the forest template,
  which the medium-length fallback story returns unchanged, does not contain the name.
\<close>

theorem kid_name_in_every_sentence_counterexample:
  "map_sum id story (create_fallback_story ''Mia'' ''forest'' ''adventure'' ''medium'' [] [])
     = Inr (forest_story ''Mia'')
   \<and> \<not> sublist ''Mia'' (forest_story ''Mia'' ! 4)"
proof
  show "map_sum id story (create_fallback_story ''Mia'' ''forest'' ''adventure'' ''medium'' [] [])
     = Inr (forest_story ''Mia'')"
    unfolding create_fallback_story_forest Let_def
    by (simp add: sentence_count_cases entry_fields entry_lengths shape_entry_fields)
  show "\<not> sublist ''Mia'' (forest_story ''Mia'' ! 4)"
    by (simp add: forest_story_def sublist_Cons_right)
qed

text \<open>
  Claim C8. When the required sentence count is 8 (\<open>medium\<close>, or a \<open>story_length\<close> that is
  not a key), the story holds exactly the eight sentences and four prompts of the entry
  of the selected theme, with its title and moral: nothing is cut, nothing is appended.
\<close>

theorem fallback_no_shaping_at_eight:
  assumes "dict_get length_mapping story_length 8 = 8"
  shows "\<exists>s e. create_fallback_story kid_name theme story_type story_length special_ingredients
                 child_description = Inr s
       \<and> map_of (fallback_stories kid_name)
            (if dict_contains (fallback_stories kid_name) theme then theme else ''forest'') = Some e
       \<and> story s = e_story e \<and> imagePrompts s = e_imagePrompts e
       \<and> length (story s) = 8 \<and> length (imagePrompts s) = 4
       \<and> title s = e_title e \<and> moral s = e_moral e"
proof -
  let ?th = "if theme \<in> {''forest'', ''space'', ''ocean'', ''kingdom'', ''dinosaur''}
             then theme else ''forest''"
  have "\<exists>e. map_of (fallback_stories kid_name) ?th = Some e"
    by (simp add: map_of_fallback_stories)
  then obtain e where e: "map_of (fallback_stories kid_name) ?th = Some e" ..
  have th: "(if dict_contains (fallback_stories kid_name) theme then theme else ''forest'') = ?th"
    by (simp add: dict_contains_def map_of_fallback_stories)
  have len: "length (e_story e) = 8" "length (e_imagePrompts e) = 4"
    using selected_entry_lengths [of kid_name ?th] e by simp_all
  have "shape_entry kid_name ?th 8 e = e"
    using len by (simp add: shape_entry_def)
  then show ?thesis
    unfolding create_fallback_story_eq Let_def th assms e
    using len by simp
qed

theorem fallback_no_shaping_at_eight_witness:
  "dict_get length_mapping ''medium'' 8 = 8
   \<and> (\<exists>s. create_fallback_story ''Mia'' ''ocean'' ''adventure'' ''medium'' [] [] = Inr s
         \<and> length (story s) = 8 \<and> length (imagePrompts s) = 4)"
proof -
  have h: "dict_get length_mapping ''medium'' 8 = 8" by (simp add: sentence_count_cases)
  from fallback_no_shaping_at_eight [OF h, of "''Mia''" "''ocean''" "''adventure''" "[]" "[]"]
  have "\<exists>s. create_fallback_story ''Mia'' ''ocean'' ''adventure'' ''medium'' [] [] = Inr s
         \<and> length (story s) = 8 \<and> length (imagePrompts s) = 4"
    by blast
  with h show ?thesis by (rule conjI)
qed

section \<open>Properties of the serialization\<close>

lemma b64_alphabet_length: "length b64_alphabet = 64"
  by (simp add: b64_alphabet_def)

lemma b64_alphabet_distinct: "distinct b64_alphabet"
  by (simp add: b64_alphabet_def)

lemma b64value_b64char: "n < 64 \<Longrightarrow> b64value (b64char n) = Some n"
proof -
  assume n: "n < 64"
  have "map_of (zip b64_alphabet [0..<64]) (b64_alphabet ! n) = Some ([0..<64] ! n)"
    by (rule map_of_zip_nth) (simp_all add: b64_alphabet_length b64_alphabet_distinct n)
  with n show ?thesis by (simp add: b64value_def b64char_def)
qed

lemma b64char_not_pad: "n < 64 \<Longrightarrow> b64char n \<noteq> CHR ''=''"
proof -
  assume n: "n < 64"
  have "CHR ''='' \<notin> set b64_alphabet" by (simp add: b64_alphabet_def)
  moreover have "b64char n \<in> set b64_alphabet"
    using n by (simp add: b64char_def b64_alphabet_length)
  ultimately show ?thesis by metis
qed

lemma div_mult_add: "r < m \<Longrightarrow> (q * m + r) div m = (q::nat)"
  by simp

lemma mod_mult_add: "r < m \<Longrightarrow> (q * m + r) mod m = (r::nat)"
  by simp

lemma byte_parts:
  fixes a :: byte
  shows "unat a div 4 < 64" "unat a div 16 < 16" "unat a div 64 < 4"
    "unat a mod 4 < 4" "unat a mod 16 < 16" "unat a mod 64 < 64"
proof -
  have a: "unat a < 256" using unsigned_less [of a] by simp
  show "unat a div 4 < 64" using a by (simp add: less_mult_imp_div_less)
  show "unat a div 16 < 16" using a by (simp add: less_mult_imp_div_less)
  show "unat a div 64 < 4" using a by (simp add: less_mult_imp_div_less)
qed simp_all

lemma sextet_bounds:
  fixes a b c :: byte
  shows "unat a div 4 < 64"
    "unat a mod 4 * 16 < 64"
    "unat a mod 4 * 16 + unat b div 16 < 64"
    "unat b mod 16 * 4 < 64"
    "unat b mod 16 * 4 + unat c div 64 < 64"
    "unat c mod 64 < 64"
  using byte_parts [of a] byte_parts [of b] byte_parts [of c] by linarith+

lemma byte_rebuild:
  fixes a b c :: byte
  shows "word_of_nat (unat a div 4 * 4 + (unat a mod 4 * 16) div 16) = a"
    "word_of_nat (unat a div 4 * 4 + (unat a mod 4 * 16 + unat b div 16) div 16) = a"
    "word_of_nat ((unat a mod 4 * 16 + unat b div 16) mod 16 * 16
        + (unat b mod 16 * 4) div 4) = b"
    "word_of_nat ((unat a mod 4 * 16 + unat b div 16) mod 16 * 16
        + (unat b mod 16 * 4 + unat c div 64) div 4) = b"
    "word_of_nat ((unat b mod 16 * 4 + unat c div 64) mod 4 * 64 + unat c mod 64) = c"
proof -
  have d1: "(unat a mod 4 * 16 + unat b div 16) div 16 = unat a mod 4"
    by (rule div_mult_add) (rule byte_parts)
  have m1: "(unat a mod 4 * 16 + unat b div 16) mod 16 = unat b div 16"
    by (rule mod_mult_add) (rule byte_parts)
  have d2: "(unat b mod 16 * 4 + unat c div 64) div 4 = unat b mod 16"
    by (rule div_mult_add) (rule byte_parts)
  have m2: "(unat b mod 16 * 4 + unat c div 64) mod 4 = unat c div 64"
    by (rule mod_mult_add) (rule byte_parts)
  show "word_of_nat (unat a div 4 * 4 + (unat a mod 4 * 16) div 16) = a" by simp
  show "word_of_nat (unat a div 4 * 4 + (unat a mod 4 * 16 + unat b div 16) div 16) = a"
    unfolding d1 by simp
  show "word_of_nat ((unat a mod 4 * 16 + unat b div 16) mod 16 * 16
        + (unat b mod 16 * 4) div 4) = b"
    unfolding m1 by simp
  show "word_of_nat ((unat a mod 4 * 16 + unat b div 16) mod 16 * 16
        + (unat b mod 16 * 4 + unat c div 64) div 4) = b"
    unfolding m1 d2 by simp
  show "word_of_nat ((unat b mod 16 * 4 + unat c div 64) mod 4 * 64 + unat c mod 64) = c"
    unfolding m2 by simp
qed

lemmas b64_group =
  b64value_b64char [OF sextet_bounds(1)] b64value_b64char [OF sextet_bounds(2)]
  b64value_b64char [OF sextet_bounds(3)] b64value_b64char [OF sextet_bounds(4)]
  b64value_b64char [OF sextet_bounds(5)] b64value_b64char [OF sextet_bounds(6)]
  b64char_not_pad [OF sextet_bounds(1)] b64char_not_pad [OF sextet_bounds(2)]
  b64char_not_pad [OF sextet_bounds(3)] b64char_not_pad [OF sextet_bounds(4)]
  b64char_not_pad [OF sextet_bounds(5)] b64char_not_pad [OF sextet_bounds(6)]
  byte_rebuild

lemma b64decode_b64encode: "b64decode (b64encode bs) = Some bs"
proof (induction bs rule: b64encode.induct)
  case 1
  show ?case by simp
next
  case (2 a)
  show ?case
    by (simp only: b64encode.simps b64decode.simps b64_group prod.case option.case
        if_True if_False simp_thms)
next
  case (3 a b)
  show ?case
    by (simp only: b64encode.simps b64decode.simps b64_group prod.case option.case
        if_True if_False simp_thms)
next
  case (4 a b c rest)
  then show ?case
    by (simp only: b64encode.simps b64decode.simps b64_group prod.case option.case
        if_True if_False simp_thms append.simps)
qed

lemma b64encode_not_empty: "bs \<noteq> [] \<Longrightarrow> b64encode bs \<noteq> []"
  by (induction bs rule: b64encode.induct) simp_all

lemma decode_encoded_image:
  "decode_image (if truthy img then Some (b64encode (the img)) else None)
     = Some (if truthy img then img else None)"
  by (cases img) (simp_all add: decode_image_def truthy_def b64decode_b64encode)

lemma those_map_Some: "those (map (\<lambda>x. Some (f x)) xs) = Some (map f xs)"
  by (induction xs) simp_all

lemma from_dict_to_dict:
  "from_dict (to_dict st) =
     Some (st\<lparr>images := map (\<lambda>img. if truthy img then img else None) (images st)\<rparr>)"
  by (cases st) (simp add: from_dict_def to_dict_def o_def decode_encoded_image those_map_Some)

text \<open>
  Claim C9, as the code has it. Serializing a story with \<open>to_dict\<close> and decoding it back
  keeps the title, the moral, the sentences and the image prompts, in order, and the
  number of images. Position \<open>i\<close> is null afterwards exactly when \<open>images[i]\<close> was null or
  an empty blob before, and a non-empty blob comes back as the same bytes.
\<close>

theorem transport_round_trip:
  "\<exists>st'. from_dict (to_dict st) = Some st'
        \<and> title st' = title st \<and> moral st' = moral st
        \<and> story st' = story st \<and> imagePrompts st' = imagePrompts st
        \<and> length (images st') = length (images st)
        \<and> (\<forall>i<length (images st).
              (images st' ! i = None \<longleftrightarrow> images st ! i = None \<or> images st ! i = Some [])
            \<and> (\<forall>bs. images st ! i = Some bs \<and> bs \<noteq> [] \<longrightarrow> images st' ! i = Some bs))"
  unfolding from_dict_to_dict
  by (auto simp add: truthy_def split: option.splits)

theorem transport_round_trip_witness:
  "\<exists>st'. from_dict (to_dict \<lparr>title = ''t'', moral = ''m'', story = [''a'', ''b''],
                                 imagePrompts = [''p''], images = [Some [1, 2, 3], None]\<rparr>)
               = Some st'
        \<and> story st' = [''a'', ''b''] \<and> imagePrompts st' = [''p'']
        \<and> images st' ! 0 = Some [1, 2, 3] \<and> images st' ! 1 = None"
proof -
  let ?st = "\<lparr>title = ''t'', moral = ''m'', story = [''a'', ''b''],
              imagePrompts = [''p''], images = [Some [1, 2, 3], None :: byte list option]\<rparr>"
  from transport_round_trip [of ?st] obtain st' where
    r: "from_dict (to_dict ?st) = Some st'" "story st' = story ?st"
      "imagePrompts st' = imagePrompts ?st" and
    i: "\<forall>i<length (images ?st).
          (images st' ! i = None \<longleftrightarrow> images ?st ! i = None \<or> images ?st ! i = Some [])
        \<and> (\<forall>bs. images ?st ! i = Some bs \<and> bs \<noteq> [] \<longrightarrow> images st' ! i = Some bs)"
    by blast
  from i have "images st' ! 0 = Some [1, 2, 3]" by simp
  moreover from i have "images st' ! 1 = None" by simp
  ultimately show ?thesis using r by simp
qed

text \<open>
  Claim C9 as stated fails: a story whose only image is the empty blob has a non-null
  image at position 0, and a null one there after the round trip.
\<close>

theorem round_trip_empty_image_counterexample:
  "images \<lparr>title = ''t'', moral = ''m'', story = [''s''], imagePrompts = [''p''],
           images = [Some []]\<rparr> ! 0 \<noteq> None
   \<and> map_option images
        (from_dict (to_dict \<lparr>title = ''t'', moral = ''m'', story = [''s''],
                              imagePrompts = [''p''], images = [Some []]\<rparr>))
       = Some [None]"
  by (simp add: from_dict_def to_dict_def truthy_def decode_image_def)

text \<open>
  Claim C10. An image that is present with length zero is serialized to null, so the
  dict is the one of the story in which that image is null.
\<close>

theorem empty_image_serialized_as_null:
  assumes "i < length (images st)" "images st ! i = Some []"
  shows "d_images (to_dict st) ! i = None
       \<and> to_dict st = to_dict (st\<lparr>images := (images st)[i := None]\<rparr>)"
proof -
  let ?f = "\<lambda>img. if truthy img then Some (b64encode (the img)) else None"
  have n: "map ?f (images st) ! i = None"
    using assms by (simp add: truthy_def)
  have "map ?f ((images st)[i := None]) = (map ?f (images st))[i := ?f None]"
    by (rule map_update)
  also have "\<dots> = (map ?f (images st))[i := map ?f (images st) ! i]"
    using n by (simp add: truthy_def)
  also have "\<dots> = map ?f (images st)" by (rule list_update_id)
  finally show ?thesis using n by (simp add: to_dict_def)
qed

theorem empty_image_serialized_as_null_witness:
  "(0::nat) < length (images \<lparr>title = ''t'', moral = ''m'', story = [''s''],
                              imagePrompts = [''p''], images = [Some []]\<rparr>)
   \<and> d_images (to_dict \<lparr>title = ''t'', moral = ''m'', story = [''s''],
                          imagePrompts = [''p''], images = [Some []]\<rparr>) ! 0 = None"
proof -
  let ?st = "\<lparr>title = ''t'', moral = ''m'', story = [''s''], imagePrompts = [''p''],
              images = [Some ([] :: byte list)]\<rparr>"
  have h: "0 < length (images ?st)" "images ?st ! 0 = Some []" by simp_all
  from empty_image_serialized_as_null [OF h]
  have "d_images (to_dict ?st) ! 0 = None" by (rule conjunct1)
  with h(1) show ?thesis by (rule conjI)
qed

section \<open>Properties of the retry loops\<close>

lemma range3: "[0..<max_retries] = [0, 1, 2]"
  by (simp add: max_retries_def upt_rec)

lemma call_text [simp]:
  "calls (snd (call e m w)) m' = (if m' = m then Suc (calls w m) else calls w m')"
  "sleeps (snd (call e m w)) = sleeps w"
  "fst (call e m w) = generate_content e m (calls w m)"
  by (simp_all add: call_def)

lemma sleep_simps [simp]:
  "calls (sleep who d w) = calls w"
  "sleeps (sleep who d w) = sleeps w @ [(who, d)]"
  by (simp_all add: sleep_def)

lemma slept_sleep [simp]:
  "slept who (sleep who' d w) = (if who' = who then slept who w @ [d] else slept who w)"
  by (simp add: slept_def)

lemma slept_call [simp]: "slept who (snd (call e m w)) = slept who w"
  by (simp add: slept_def)

text \<open>The illustration generator leaves the text model and the sleeps of the story loop alone.\<close>

lemma image_attempts_frame:
  "calls (snd (image_attempts e atts imgs w)) GEMINI_TEXT_MODEL = calls w GEMINI_TEXT_MODEL
   \<and> slept Story_retry (snd (image_attempts e atts imgs w)) = slept Story_retry w"
proof (induction atts arbitrary: imgs w)
  case Nil
  show ?case by simp
next
  case (Cons attempt rest)
  obtain out w1 where c: "call e GEMINI_IMAGE_MODEL w = (out, w1)" by (cases "call e GEMINI_IMAGE_MODEL w")
  have w1: "calls w1 GEMINI_TEXT_MODEL = calls w GEMINI_TEXT_MODEL" "slept Story_retry w1 = slept Story_retry w"
    using call_text(1) [of e GEMINI_IMAGE_MODEL w GEMINI_TEXT_MODEL] slept_call [of Story_retry e GEMINI_IMAGE_MODEL w] c
    by simp_all
  show ?case
    using Cons.IH w1 c
    by (cases out) (simp_all add: Let_def)
qed

lemma generate_images_loop_frame:
  "calls (snd (generate_images_loop e ps imgs w)) GEMINI_TEXT_MODEL = calls w GEMINI_TEXT_MODEL
   \<and> slept Story_retry (snd (generate_images_loop e ps imgs w)) = slept Story_retry w"
proof (induction ps arbitrary: imgs w)
  case Nil
  show ?case by simp
next
  case (Cons p ps)
  obtain imgs1 w1 where a: "image_attempts e [0..<max_retries] imgs w = (imgs1, w1)"
    by (cases "image_attempts e [0..<max_retries] imgs w")
  with image_attempts_frame [of e "[0..<max_retries]" imgs w]
  have "calls w1 GEMINI_TEXT_MODEL = calls w GEMINI_TEXT_MODEL" "slept Story_retry w1 = slept Story_retry w"
    by simp_all
  then show ?case using Cons.IH [of imgs1 "sleep Image_pacing 1 w1"] a by simp
qed

lemma generate_images_frame:
  "calls (snd (generate_images e ps ctx w)) GEMINI_TEXT_MODEL = calls w GEMINI_TEXT_MODEL"
  "slept Story_retry (snd (generate_images e ps ctx w)) = slept Story_retry w"
  using generate_images_loop_frame [of e ps "[]" w] by (simp_all add: generate_images_def)

lemma generate_images_frameD:
  assumes "generate_images e ps ctx w = (imgs, w2)"
  shows "calls w2 GEMINI_TEXT_MODEL = calls w GEMINI_TEXT_MODEL"
    and "slept Story_retry w2 = slept Story_retry w"
  using generate_images_frame [of e ps ctx w] assms by simp_all

lemma key_errors_not_quota:
  "\<not> quota_signature (key_error ''imagePrompts'')"
  "\<not> quota_signature (key_error ''story'')"
  "\<not> quota_signature (key_error ''title'')"
  "\<not> quota_signature (key_error ''moral'')"
  by (simp_all add: quota_signature_def key_error_def lower_def sublist_Cons_right)

lemma call_eq:
  "call e m w = (generate_content e m (calls w m), w\<lparr>calls := (calls w)(m := Suc (calls w m))\<rparr>)"
  by (simp add: call_def)

lemma slept_calls_update [simp]: "slept who (w\<lparr>calls := c\<rparr>) = slept who w"
  by (simp add: slept_def)

lemma story_attempt_fails:
  assumes "story_call_fails e (calls w GEMINI_TEXT_MODEL)" "attempt < max_retries - 1"
  shows "\<exists>w1. calls w1 GEMINI_TEXT_MODEL = Suc (calls w GEMINI_TEXT_MODEL)
            \<and> slept Story_retry w1 = slept Story_retry w
            \<and> ((\<exists>err. story_attempt e attempt w = (Raise err, w1) \<and> \<not> quota_signature err)
               \<or> story_attempt e attempt w
                    = (Continue, sleep Story_retry (base_delay * 2 ^ attempt) w1))"
proof -
  let ?w0 = "w\<lparr>calls := (calls w)(GEMINI_TEXT_MODEL := Suc (calls w GEMINI_TEXT_MODEL))\<rparr>"
  show ?thesis
proof (cases "generate_content e GEMINI_TEXT_MODEL (calls w GEMINI_TEXT_MODEL)")
  case (Raises err)
  with assms show ?thesis
    by (intro exI [of _ ?w0]) (simp add: story_attempt_def story_call_fails_def call_eq)
next
  case (Returns response)
  show ?thesis
  proof (cases "resp_text response = []")
    case True
    with Returns assms show ?thesis
      by (intro exI [of _ ?w0]) (simp add: story_attempt_def call_eq)
  next
    case False
    note nonempty = this
    show ?thesis
    proof (cases "json_loads e (strip_fences (strip e (resp_text response)))")
      case (Inl err)
      with Returns nonempty assms show ?thesis
        by (intro exI [of _ ?w0]) (simp add: story_attempt_def story_call_fails_def call_eq)
    next
      case (Inr d)
      with Returns nonempty assms
      have missing: "j_imagePrompts d = None \<or> j_story d = None \<or> j_title d = None \<or> j_moral d = None"
        by (simp add: story_call_fails_def)
      show ?thesis
      proof (cases "j_imagePrompts d")
        case None
        with Returns nonempty Inr show ?thesis
          by (intro exI [of _ ?w0]) (simp add: story_attempt_def call_eq key_errors_not_quota)
      next
        case (Some prompts)
        note ps = this
        show ?thesis
        proof (cases "j_story d")
          case None
          with Returns nonempty Inr ps show ?thesis
            by (intro exI [of _ ?w0]) (simp add: story_attempt_def call_eq key_errors_not_quota)
        next
          case (Some sentences)
          obtain imgs w2 where g: "generate_images e prompts (join '' '' sentences) ?w0 = (imgs, w2)"
            by (cases "generate_images e prompts (join '' '' sentences) ?w0")
          have fr: "calls w2 GEMINI_TEXT_MODEL = Suc (calls w GEMINI_TEXT_MODEL)"
            "slept Story_retry w2 = slept Story_retry w"
            using generate_images_frameD [OF g] by simp_all
          from missing ps Some have "j_title d = None \<or> j_moral d = None" by simp
          then have "\<exists>err. story_attempt e attempt w = (Raise err, w2) \<and> \<not> quota_signature err"
            using Returns nonempty Inr ps Some g
            by (cases "j_title d") (auto simp add: story_attempt_def call_eq key_errors_not_quota)
          with fr show ?thesis by blast
        qed
      qed
    qed
  qed
qed
qed

lemma story_fail_step:
  assumes "story_call_fails e (calls w GEMINI_TEXT_MODEL)" "attempt < max_retries - 1"
  shows "\<exists>w1. generate_story_loop e fb (attempt # rest) w = generate_story_loop e fb rest w1
            \<and> calls w1 GEMINI_TEXT_MODEL = Suc (calls w GEMINI_TEXT_MODEL)
            \<and> slept Story_retry w1 = slept Story_retry w @ [base_delay * 2 ^ attempt]"
proof -
  from story_attempt_fails [OF assms] obtain w1 where
    c: "calls w1 GEMINI_TEXT_MODEL = Suc (calls w GEMINI_TEXT_MODEL)" and
    s: "slept Story_retry w1 = slept Story_retry w" and
    a: "(\<exists>err. story_attempt e attempt w = (Raise err, w1) \<and> \<not> quota_signature err)
        \<or> story_attempt e attempt w = (Continue, sleep Story_retry (base_delay * 2 ^ attempt) w1)"
    by blast
  let ?w = "sleep Story_retry (base_delay * 2 ^ attempt) w1"
  have "generate_story_loop e fb (attempt # rest) w = generate_story_loop e fb rest ?w"
    using a assms(2) by auto
  moreover have "calls ?w GEMINI_TEXT_MODEL = Suc (calls w GEMINI_TEXT_MODEL)" using c by simp
  moreover have "slept Story_retry ?w = slept Story_retry w @ [base_delay * 2 ^ attempt]"
    using s by simp
  ultimately show ?thesis by blast
qed

lemma story_quota_step:
  assumes "story_call_quota e (calls w GEMINI_TEXT_MODEL)"
  shows "generate_story_loop e fb (attempt # rest) w =
           (map_sum id Some fb,
            w\<lparr>calls := (calls w)(GEMINI_TEXT_MODEL := Suc (calls w GEMINI_TEXT_MODEL))\<rparr>)"
proof (cases "generate_content e GEMINI_TEXT_MODEL (calls w GEMINI_TEXT_MODEL)")
  case (Raises err)
  with assms show ?thesis
    by (simp add: story_attempt_def story_call_quota_def call_eq)
next
  case (Returns response)
  with assms show ?thesis
    by (cases "json_loads e (strip_fences (strip e (resp_text response)))")
      (simp_all add: story_attempt_def story_call_quota_def call_eq)
qed

lemma story_success_step:
  assumes "story_call_succeeds e (calls w GEMINI_TEXT_MODEL) d"
  shows "generate_story_loop e fb (attempt # rest) w =
           (case generate_images e (the (j_imagePrompts d)) (join '' '' (the (j_story d)))
                   (w\<lparr>calls := (calls w)(GEMINI_TEXT_MODEL := Suc (calls w GEMINI_TEXT_MODEL))\<rparr>) of
              (imgs, w2) \<Rightarrow>
                (Inr (Some (Story_init (the (j_title d)) (the (j_moral d)) (the (j_story d))
                              (the (j_imagePrompts d)) (Some imgs))), w2))"
proof (cases "generate_content e GEMINI_TEXT_MODEL (calls w GEMINI_TEXT_MODEL)")
  case (Raises err)
  with assms show ?thesis by (simp add: story_call_succeeds_def)
next
  case (Returns response)
  with assms show ?thesis
    by (auto simp add: story_attempt_def story_call_succeeds_def call_eq split: prod.splits)
qed

lemma upt_Cons: "a < n \<Longrightarrow> [a..<n] = a # [Suc a..<n]"
  by (rule upt_conv_Cons)

lemma story_loop_after_failures:
  assumes "\<forall>j<k. story_call_fails e (calls w GEMINI_TEXT_MODEL + j)"
    and "a + k \<le> max_retries - 1"
  shows "\<exists>w1. generate_story_loop e fb [a..<max_retries] w
                 = generate_story_loop e fb [a + k..<max_retries] w1
            \<and> calls w1 GEMINI_TEXT_MODEL = calls w GEMINI_TEXT_MODEL + k
            \<and> slept Story_retry w1
                 = slept Story_retry w @ map (\<lambda>i. base_delay * 2 ^ i) [a..<a + k]"
  using assms
proof (induction k arbitrary: a w)
  case 0
  show ?case by (intro exI [of _ w]) simp
next
  case (Suc k)
  from Suc.prems(2) have a: "a < max_retries - 1" "a < max_retries" by simp_all
  from Suc.prems(1) have f0: "story_call_fails e (calls w GEMINI_TEXT_MODEL)"
    by (metis add.right_neutral zero_less_Suc)
  from story_fail_step [OF f0 a(1), of fb "[Suc a..<max_retries]"] obtain w1 where
    l: "generate_story_loop e fb (a # [Suc a..<max_retries]) w
          = generate_story_loop e fb [Suc a..<max_retries] w1" and
    c: "calls w1 GEMINI_TEXT_MODEL = Suc (calls w GEMINI_TEXT_MODEL)" and
    s: "slept Story_retry w1 = slept Story_retry w @ [base_delay * 2 ^ a]"
    by blast
  have "\<forall>j<k. story_call_fails e (calls w1 GEMINI_TEXT_MODEL + j)"
    using Suc.prems(1) c by (metis Suc_less_eq add_Suc_shift)
  moreover have "Suc a + k \<le> max_retries - 1" using Suc.prems(2) by simp
  ultimately obtain w2 where
    l2: "generate_story_loop e fb [Suc a..<max_retries] w1
           = generate_story_loop e fb [Suc a + k..<max_retries] w2" and
    c2: "calls w2 GEMINI_TEXT_MODEL = calls w1 GEMINI_TEXT_MODEL + k" and
    s2: "slept Story_retry w2
           = slept Story_retry w1 @ map (\<lambda>i. base_delay * 2 ^ i) [Suc a..<Suc a + k]"
    using Suc.IH [of w1 "Suc a"] by blast
  have "[a..<a + Suc k] = a # [Suc a..<Suc a + k]"
    by (simp add: upt_conv_Cons)
  then have "slept Story_retry w2
      = slept Story_retry w @ map (\<lambda>i. base_delay * 2 ^ i) [a..<a + Suc k]"
    using s s2 by simp
  moreover have "generate_story_loop e fb [a..<max_retries] w
      = generate_story_loop e fb [a + Suc k..<max_retries] w2"
    using l l2 upt_Cons [OF a(2)] by simp
  moreover have "calls w2 GEMINI_TEXT_MODEL = calls w GEMINI_TEXT_MODEL + Suc k"
    using c c2 by simp
  ultimately show ?case by blast
qed

lemma photo_fail_step:
  assumes "photo_call_fails e (calls w GEMINI_VISION_MODEL)"
  shows "analyze_photo_loop e (attempt # rest) w =
           analyze_photo_loop e rest
             (backoff Photo_retry attempt
                (w\<lparr>calls := (calls w)(GEMINI_VISION_MODEL := Suc (calls w GEMINI_VISION_MODEL))\<rparr>))"
  using assms
  by (cases "generate_content e GEMINI_VISION_MODEL (calls w GEMINI_VISION_MODEL)")
    (simp_all add: photo_call_fails_def call_eq)

lemma photo_quota_step:
  assumes "photo_call_quota e (calls w GEMINI_VISION_MODEL)"
  shows "analyze_photo_loop e (attempt # rest) w =
           (default_description,
            w\<lparr>calls := (calls w)(GEMINI_VISION_MODEL := Suc (calls w GEMINI_VISION_MODEL))\<rparr>)"
  using assms
  by (cases "generate_content e GEMINI_VISION_MODEL (calls w GEMINI_VISION_MODEL)")
    (simp_all add: photo_call_quota_def call_eq)

lemma photo_loop_after_failures:
  assumes "\<forall>j<k. photo_call_fails e (calls w GEMINI_VISION_MODEL + j)"
    and "a + k \<le> max_retries - 1"
  shows "analyze_photo_loop e [a..<max_retries] w =
           analyze_photo_loop e [a + k..<max_retries]
             (w\<lparr>calls := (calls w)(GEMINI_VISION_MODEL := calls w GEMINI_VISION_MODEL + k),
                sleeps := sleeps w @ map (\<lambda>i. (Photo_retry, base_delay * 2 ^ i)) [a..<a + k]\<rparr>)"
  using assms
proof (induction k arbitrary: a w)
  case 0
  show ?case by simp
next
  case (Suc k)
  from Suc.prems(2) have a: "a < max_retries - 1" "a < max_retries" by simp_all
  from Suc.prems(1) have f0: "photo_call_fails e (calls w GEMINI_VISION_MODEL)"
    by (metis add.right_neutral zero_less_Suc)
  let ?w1 = "sleep Photo_retry (base_delay * 2 ^ a)
               (w\<lparr>calls := (calls w)(GEMINI_VISION_MODEL := Suc (calls w GEMINI_VISION_MODEL))\<rparr>)"
  have l: "analyze_photo_loop e [a..<max_retries] w = analyze_photo_loop e [Suc a..<max_retries] ?w1"
    using photo_fail_step [OF f0, of a "[Suc a..<max_retries]"] a
    by (simp add: upt_conv_Cons backoff_def)
  have c: "calls ?w1 GEMINI_VISION_MODEL = Suc (calls w GEMINI_VISION_MODEL)" by simp
  have "\<forall>j<k. photo_call_fails e (calls ?w1 GEMINI_VISION_MODEL + j)"
    unfolding c using Suc.prems(1) by (metis Suc_less_eq add_Suc_shift)
  moreover have "Suc a + k \<le> max_retries - 1" using Suc.prems(2) by simp
  ultimately have l2: "analyze_photo_loop e [Suc a..<max_retries] ?w1 =
      analyze_photo_loop e [Suc a + k..<max_retries]
        (?w1\<lparr>calls := (calls ?w1)(GEMINI_VISION_MODEL := calls ?w1 GEMINI_VISION_MODEL + k),
              sleeps := sleeps ?w1 @ map (\<lambda>i. (Photo_retry, base_delay * 2 ^ i)) [Suc a..<Suc a + k]\<rparr>)"
    by (rule Suc.IH)
  have "[a..<a + Suc k] = a # [Suc a..<Suc a + k]"
    by (simp add: upt_conv_Cons)
  then have eq: "?w1\<lparr>calls := (calls ?w1)(GEMINI_VISION_MODEL := calls ?w1 GEMINI_VISION_MODEL + k),
              sleeps := sleeps ?w1 @ map (\<lambda>i. (Photo_retry, base_delay * 2 ^ i)) [Suc a..<Suc a + k]\<rparr>
      = w\<lparr>calls := (calls w)(GEMINI_VISION_MODEL := calls w GEMINI_VISION_MODEL + Suc k),
                sleeps := sleeps w @ map (\<lambda>i. (Photo_retry, base_delay * 2 ^ i)) [a..<a + Suc k]\<rparr>"
    by (simp add: sleep_def)
  from l l2 show ?case unfolding eq by (simp only: add_Suc add_Suc_right)
qed

lemma backoffs_map: "map (Pair who) (backoffs k) = map (\<lambda>i. (who, base_delay * 2 ^ i)) [0..<k]"
  by (simp add: backoffs_def)

lemma photo_quota_after_failures:
  assumes "API_INITIALIZED e" "client_set e" "Image_open e photo_bytes = Inr ()"
    and "k < max_retries"
    and "\<forall>j<k. photo_call_fails e (calls w GEMINI_VISION_MODEL + j)"
    and "photo_call_quota e (calls w GEMINI_VISION_MODEL + k)"
  shows "analyze_photo e photo_bytes w =
           (default_description,
            w\<lparr>calls := (calls w)(GEMINI_VISION_MODEL := calls w GEMINI_VISION_MODEL + k + 1),
               sleeps := sleeps w @ map (Pair Photo_retry) (backoffs k)\<rparr>)"
proof -
  let ?w1 = "w\<lparr>calls := (calls w)(GEMINI_VISION_MODEL := calls w GEMINI_VISION_MODEL + k),
                sleeps := sleeps w @ map (\<lambda>i. (Photo_retry, base_delay * 2 ^ i)) [0..<k]\<rparr>"
  from assms(4) have k: "0 + k \<le> max_retries - 1" by simp
  have "analyze_photo e photo_bytes w = analyze_photo_loop e [0..<max_retries] w"
    using assms(1-3) by (simp add: analyze_photo_def)
  also have "\<dots> = analyze_photo_loop e [k..<max_retries] ?w1"
    using photo_loop_after_failures [OF assms(5) k] by simp
  also have "\<dots> = analyze_photo_loop e (k # [Suc k..<max_retries]) ?w1"
    using assms(4) by (simp add: upt_conv_Cons)
  also have "\<dots> = (default_description,
       ?w1\<lparr>calls := (calls ?w1)(GEMINI_VISION_MODEL := Suc (calls ?w1 GEMINI_VISION_MODEL))\<rparr>)"
    by (rule photo_quota_step) (simp add: assms(6))
  finally show ?thesis by (simp add: backoffs_map)
qed

lemma story_quota_after_failures:
  assumes "API_INITIALIZED e" "client_set e"
    and "k < max_retries"
    and "\<forall>j<k. story_call_fails e (calls w GEMINI_TEXT_MODEL + j)"
    and "story_call_quota e (calls w GEMINI_TEXT_MODEL + k)"
  shows "\<exists>st w'. create_fallback_story kid_name theme story_type story_length
                    special_ingredients child_description = Inr st
          \<and> generate_story e kid_name age_level theme story_type story_length
                special_ingredients child_description w = (Inr (Some st), w')
          \<and> calls w' GEMINI_TEXT_MODEL = calls w GEMINI_TEXT_MODEL + k + 1
          \<and> slept Story_retry w' = slept Story_retry w @ backoffs k"
proof -
  let ?fb = "create_fallback_story kid_name theme story_type story_length
               special_ingredients child_description"
  obtain st where st: "?fb = Inr st" using create_fallback_story_total by blast
  from assms(3) have k: "0 + k \<le> max_retries - 1" by simp
  from story_loop_after_failures [OF assms(4) k, of ?fb] obtain w1 where
    l: "generate_story_loop e ?fb [0..<max_retries] w
          = generate_story_loop e ?fb [k..<max_retries] w1" and
    c: "calls w1 GEMINI_TEXT_MODEL = calls w GEMINI_TEXT_MODEL + k" and
    s: "slept Story_retry w1 = slept Story_retry w @ backoffs k"
    by (auto simp add: backoffs_def)
  let ?w' = "w1\<lparr>calls := (calls w1)(GEMINI_TEXT_MODEL := Suc (calls w1 GEMINI_TEXT_MODEL))\<rparr>"
  have "generate_story_loop e ?fb [k..<max_retries] w1
          = generate_story_loop e ?fb (k # [Suc k..<max_retries]) w1"
    using assms(3) by (simp add: upt_conv_Cons)
  also have "\<dots> = (map_sum id Some ?fb, ?w')"
    by (rule story_quota_step) (simp add: c assms(5))
  finally have "generate_story_loop e ?fb [0..<max_retries] w = (Inr (Some st), ?w')"
    using l st by simp
  then have "generate_story e kid_name age_level theme story_type story_length
                special_ingredients child_description w = (Inr (Some st), ?w')"
    using assms(1,2) by (simp add: generate_story_def)
  moreover have "calls ?w' GEMINI_TEXT_MODEL = calls w GEMINI_TEXT_MODEL + k + 1"
    using c by simp
  moreover have "slept Story_retry ?w' = slept Story_retry w @ backoffs k"
    using s by simp
  ultimately show ?thesis using st by blast
qed

lemma backoffs_values:
  "backoffs k = map (\<lambda>i. 2 * 2 ^ i) [0..<k]" "length (backoffs k) = k"
  by (simp_all add: backoffs_def base_delay_def)

lemma story_success_after_failures:
  assumes "API_INITIALIZED e" "client_set e"
    and "k < max_retries"
    and "\<forall>j<k. story_call_fails e (calls w GEMINI_TEXT_MODEL + j)"
    and "story_call_succeeds e (calls w GEMINI_TEXT_MODEL + k)
           \<lparr>j_title = Some t, j_moral = Some m, j_story = Some sentences,
            j_imagePrompts = Some prompts\<rparr>"
  shows "\<exists>w1 imgs w'.
           calls w1 GEMINI_TEXT_MODEL = calls w GEMINI_TEXT_MODEL + k + 1
         \<and> slept Story_retry w1 = slept Story_retry w @ backoffs k
         \<and> generate_images e prompts (join '' '' sentences) w1 = (imgs, w')
         \<and> generate_story e kid_name age_level theme story_type story_length
               special_ingredients child_description w
             = (Inr (Some (Story_init t m sentences prompts (Some imgs))), w')
         \<and> calls w' GEMINI_TEXT_MODEL = calls w GEMINI_TEXT_MODEL + k + 1
         \<and> slept Story_retry w' = slept Story_retry w @ backoffs k"
proof -
  let ?fb = "create_fallback_story kid_name theme story_type story_length
               special_ingredients child_description"
  let ?d = "\<lparr>j_title = Some t, j_moral = Some m, j_story = Some sentences,
             j_imagePrompts = Some prompts\<rparr>"
  from assms(3) have k: "0 + k \<le> max_retries - 1" by simp
  from story_loop_after_failures [OF assms(4) k, of ?fb] obtain w0 where
    l: "generate_story_loop e ?fb [0..<max_retries] w
          = generate_story_loop e ?fb [k..<max_retries] w0" and
    c: "calls w0 GEMINI_TEXT_MODEL = calls w GEMINI_TEXT_MODEL + k" and
    s: "slept Story_retry w0 = slept Story_retry w @ backoffs k"
    by (auto simp add: backoffs_def)
  let ?w1 = "w0\<lparr>calls := (calls w0)(GEMINI_TEXT_MODEL := Suc (calls w0 GEMINI_TEXT_MODEL))\<rparr>"
  obtain imgs w' where g: "generate_images e prompts (join '' '' sentences) ?w1 = (imgs, w')"
    by (cases "generate_images e prompts (join '' '' sentences) ?w1")
  have ok: "story_call_succeeds e (calls w0 GEMINI_TEXT_MODEL) ?d"
    using assms(5) c by simp
  have "generate_story_loop e ?fb [k..<max_retries] w0
          = generate_story_loop e ?fb (k # [Suc k..<max_retries]) w0"
    using assms(3) by (simp add: upt_conv_Cons)
  also have "\<dots> = (Inr (Some (Story_init t m sentences prompts (Some imgs))), w')"
    using story_success_step [OF ok, of ?fb k "[Suc k..<max_retries]"] g by simp
  finally have "generate_story_loop e ?fb [0..<max_retries] w
      = (Inr (Some (Story_init t m sentences prompts (Some imgs))), w')"
    using l by simp
  then have r: "generate_story e kid_name age_level theme story_type story_length
                special_ingredients child_description w
      = (Inr (Some (Story_init t m sentences prompts (Some imgs))), w')"
    using assms(1,2) by (simp add: generate_story_def)
  have c1: "calls ?w1 GEMINI_TEXT_MODEL = calls w GEMINI_TEXT_MODEL + k + 1"
    using c by simp
  have s1: "slept Story_retry ?w1 = slept Story_retry w @ backoffs k"
    using s by simp
  have "calls w' GEMINI_TEXT_MODEL = calls w GEMINI_TEXT_MODEL + k + 1"
    using generate_images_frameD(1) [OF g] c1 by simp
  moreover have "slept Story_retry w' = slept Story_retry w @ backoffs k"
    using generate_images_frameD(2) [OF g] s1 by simp
  ultimately show ?thesis using c1 s1 g r by blast
qed

lemma image_fail_step:
  assumes "image_call_fails e (calls w GEMINI_IMAGE_MODEL)" "attempt < max_retries - 1"
  shows "image_attempts e (attempt # rest) imgs w =
           image_attempts e rest imgs
             (sleep Image_retry (base_delay * 2 ^ attempt)
                (w\<lparr>calls := (calls w)(GEMINI_IMAGE_MODEL := Suc (calls w GEMINI_IMAGE_MODEL))\<rparr>))"
  using assms
  by (cases "generate_content e GEMINI_IMAGE_MODEL (calls w GEMINI_IMAGE_MODEL)")
    (simp_all add: image_call_fails_def call_eq Let_def)

lemma image_quota_step:
  assumes "image_call_quota e (calls w GEMINI_IMAGE_MODEL)"
  shows "image_attempts e (attempt # rest) imgs w =
           (imgs @ [None],
            w\<lparr>calls := (calls w)(GEMINI_IMAGE_MODEL := Suc (calls w GEMINI_IMAGE_MODEL))\<rparr>)"
  using assms
  by (cases "generate_content e GEMINI_IMAGE_MODEL (calls w GEMINI_IMAGE_MODEL)")
    (simp_all add: image_call_quota_def call_eq)

lemma image_success_step:
  assumes "image_call_succeeds e (calls w GEMINI_IMAGE_MODEL) img"
  shows "image_attempts e (attempt # rest) imgs w =
           (imgs @ [Some img],
            w\<lparr>calls := (calls w)(GEMINI_IMAGE_MODEL := Suc (calls w GEMINI_IMAGE_MODEL))\<rparr>)"
  using assms
  by (cases "generate_content e GEMINI_IMAGE_MODEL (calls w GEMINI_IMAGE_MODEL)")
    (simp_all add: image_call_succeeds_def call_eq Let_def truthy_def)

lemma image_loop_after_failures:
  assumes "\<forall>j<k. image_call_fails e (calls w GEMINI_IMAGE_MODEL + j)"
    and "a + k \<le> max_retries - 1"
  shows "image_attempts e [a..<max_retries] imgs w =
           image_attempts e [a + k..<max_retries] imgs
             (w\<lparr>calls := (calls w)(GEMINI_IMAGE_MODEL := calls w GEMINI_IMAGE_MODEL + k),
                sleeps := sleeps w @ map (\<lambda>i. (Image_retry, base_delay * 2 ^ i)) [a..<a + k]\<rparr>)"
  using assms
proof (induction k arbitrary: a w)
  case 0
  show ?case by simp
next
  case (Suc k)
  from Suc.prems(2) have a: "a < max_retries - 1" "a < max_retries" by simp_all
  from Suc.prems(1) have f0: "image_call_fails e (calls w GEMINI_IMAGE_MODEL)"
    by (metis add.right_neutral zero_less_Suc)
  let ?w1 = "sleep Image_retry (base_delay * 2 ^ a)
               (w\<lparr>calls := (calls w)(GEMINI_IMAGE_MODEL := Suc (calls w GEMINI_IMAGE_MODEL))\<rparr>)"
  have l: "image_attempts e [a..<max_retries] imgs w
             = image_attempts e [Suc a..<max_retries] imgs ?w1"
    using image_fail_step [OF f0 a(1), of "[Suc a..<max_retries]" imgs] a
    by (simp add: upt_conv_Cons)
  have c: "calls ?w1 GEMINI_IMAGE_MODEL = Suc (calls w GEMINI_IMAGE_MODEL)" by simp
  have "\<forall>j<k. image_call_fails e (calls ?w1 GEMINI_IMAGE_MODEL + j)"
    unfolding c using Suc.prems(1) by (metis Suc_less_eq add_Suc_shift)
  moreover have "Suc a + k \<le> max_retries - 1" using Suc.prems(2) by simp
  ultimately have l2: "image_attempts e [Suc a..<max_retries] imgs ?w1 =
      image_attempts e [Suc a + k..<max_retries] imgs
        (?w1\<lparr>calls := (calls ?w1)(GEMINI_IMAGE_MODEL := calls ?w1 GEMINI_IMAGE_MODEL + k),
              sleeps := sleeps ?w1 @ map (\<lambda>i. (Image_retry, base_delay * 2 ^ i)) [Suc a..<Suc a + k]\<rparr>)"
    by (rule Suc.IH)
  have "[a..<a + Suc k] = a # [Suc a..<Suc a + k]"
    by (simp add: upt_conv_Cons)
  then have eq: "?w1\<lparr>calls := (calls ?w1)(GEMINI_IMAGE_MODEL := calls ?w1 GEMINI_IMAGE_MODEL + k),
              sleeps := sleeps ?w1 @ map (\<lambda>i. (Image_retry, base_delay * 2 ^ i)) [Suc a..<Suc a + k]\<rparr>
      = w\<lparr>calls := (calls w)(GEMINI_IMAGE_MODEL := calls w GEMINI_IMAGE_MODEL + Suc k),
                sleeps := sleeps w @ map (\<lambda>i. (Image_retry, base_delay * 2 ^ i)) [a..<a + Suc k]\<rparr>"
    by (simp add: sleep_def)
  from l l2 show ?case unfolding eq by (simp only: add_Suc add_Suc_right)
qed

lemma image_quota_after_failures:
  assumes "k < max_retries"
    and "\<forall>j<k. image_call_fails e (calls w GEMINI_IMAGE_MODEL + j)"
    and "image_call_quota e (calls w GEMINI_IMAGE_MODEL + k)"
  shows "image_attempts e [0..<max_retries] imgs w =
           (imgs @ [None],
            w\<lparr>calls := (calls w)(GEMINI_IMAGE_MODEL := calls w GEMINI_IMAGE_MODEL + k + 1),
               sleeps := sleeps w @ map (Pair Image_retry) (backoffs k)\<rparr>)"
proof -
  let ?w1 = "w\<lparr>calls := (calls w)(GEMINI_IMAGE_MODEL := calls w GEMINI_IMAGE_MODEL + k),
                sleeps := sleeps w @ map (\<lambda>i. (Image_retry, base_delay * 2 ^ i)) [0..<k]\<rparr>"
  from assms(1) have k: "0 + k \<le> max_retries - 1" by simp
  have "image_attempts e [0..<max_retries] imgs w = image_attempts e [k..<max_retries] imgs ?w1"
    using image_loop_after_failures [OF assms(2) k] by simp
  also have "\<dots> = image_attempts e (k # [Suc k..<max_retries]) imgs ?w1"
    using assms(1) by (simp add: upt_conv_Cons)
  also have "\<dots> = (imgs @ [None],
       ?w1\<lparr>calls := (calls ?w1)(GEMINI_IMAGE_MODEL := Suc (calls ?w1 GEMINI_IMAGE_MODEL))\<rparr>)"
    by (rule image_quota_step) (simp add: assms(3))
  finally show ?thesis by (simp add: backoffs_map)
qed

text \<open>The list of images only grows at its end.\<close>

lemma image_attempts_acc:
  "image_attempts e atts imgs w =
     (imgs @ fst (image_attempts e atts [] w), snd (image_attempts e atts [] w))"
proof (induction atts arbitrary: imgs w)
  case Nil
  show ?case by simp
next
  case (Cons attempt rest)
  note IH = Cons.IH
  show ?case
  proof (cases "generate_content e GEMINI_IMAGE_MODEL (calls w GEMINI_IMAGE_MODEL)")
    case (Raises err)
    then show ?thesis
      using IH [of "imgs @ [None]"] IH [of "[None]"] IH [of imgs]
      by (simp add: call_eq)
  next
    case (Returns response)
    then show ?thesis
      using IH [of "imgs @ [None]"] IH [of "[None]"] IH [of imgs]
      by (simp add: call_eq Let_def)
  qed
qed

lemma image_attempts_one:
  "\<exists>x. fst (image_attempts e [0..<max_retries] [] w) = [x]
       \<and> (x = None \<or> (\<exists>d. x = Some d \<and> d \<noteq> []))"
  unfolding range3
  by (auto simp add: call_eq Let_def max_retries_def truthy_def
      split: outcome.splits option.splits)

lemma generate_images_loop_acc:
  "generate_images_loop e ps imgs w =
     (imgs @ fst (generate_images_loop e ps [] w), snd (generate_images_loop e ps [] w))"
proof (induction ps arbitrary: imgs w)
  case Nil
  show ?case by simp
next
  case (Cons p ps)
  obtain r w' where r: "image_attempts e [0..<max_retries] [] w = (r, w')"
    by (cases "image_attempts e [0..<max_retries] [] w")
  have i: "image_attempts e [0..<max_retries] imgs w = (imgs @ r, w')"
    using image_attempts_acc [of e "[0..<max_retries]" imgs w] r by simp
  let ?w1 = "sleep Image_pacing 1 w'"
  have "generate_images_loop e (p # ps) imgs w = generate_images_loop e ps (imgs @ r) ?w1"
    by (simp only: generate_images_loop.simps i prod.case)
  moreover have "generate_images_loop e (p # ps) [] w = generate_images_loop e ps r ?w1"
    by (simp only: generate_images_loop.simps r prod.case)
  ultimately show ?case
    using Cons.IH [of "imgs @ r" ?w1] Cons.IH [of r ?w1] by simp
qed

lemma generate_images_loop_entries:
  "length (fst (generate_images_loop e ps [] w)) = length ps
   \<and> (\<forall>x\<in>set (fst (generate_images_loop e ps [] w)). x = None \<or> (\<exists>d. x = Some d \<and> d \<noteq> []))"
proof (induction ps arbitrary: w)
  case Nil
  show ?case by simp
next
  case (Cons p ps)
  obtain r w' where r: "image_attempts e [0..<max_retries] [] w = (r, w')"
    by (cases "image_attempts e [0..<max_retries] [] w")
  from image_attempts_one [of e w] r obtain x where
    x: "r = [x]" "x = None \<or> (\<exists>d. x = Some d \<and> d \<noteq> [])"
    by auto
  let ?w1 = "sleep Image_pacing 1 w'"
  have "generate_images_loop e (p # ps) [] w = generate_images_loop e ps [x] ?w1"
    by (simp only: generate_images_loop.simps r x(1) prod.case)
  then have "fst (generate_images_loop e (p # ps) [] w)
      = x # fst (generate_images_loop e ps [] ?w1)"
    using generate_images_loop_acc [of e ps "[x]" ?w1] by simp
  with Cons.IH [of ?w1] x(2) show ?case by simp
qed

lemma generate_images_loop_append:
  "generate_images_loop e (ps @ qs) imgs w =
     (case generate_images_loop e ps imgs w of (imgs1, w1) \<Rightarrow> generate_images_loop e qs imgs1 w1)"
proof (induction ps arbitrary: imgs w)
  case Nil
  show ?case by simp
next
  case (Cons p ps)
  show ?case
    by (cases "image_attempts e [0..<max_retries] imgs w") (simp add: Cons.IH)
qed

lemma generate_images_entries:
  "length (fst (generate_images e prompts ctx w)) = length prompts"
  "\<forall>x\<in>set (fst (generate_images e prompts ctx w)). x = None \<or> (\<exists>d. x = Some d \<and> d \<noteq> [])"
  using generate_images_loop_entries [of e prompts w]
  by (simp_all add: generate_images_def)

lemma generate_images_quota_at:
  assumes "API_INITIALIZED e" "client_set e" "k < max_retries"
    and "generate_images e ps ctx w = (imgs, w1)"
    and "\<forall>j<k. image_call_fails e (calls w1 GEMINI_IMAGE_MODEL + j)"
    and "image_call_quota e (calls w1 GEMINI_IMAGE_MODEL + k)"
  shows "generate_images e (ps @ p # qs) ctx w =
           (case generate_images e qs ctx
                   (w1\<lparr>calls := (calls w1)(GEMINI_IMAGE_MODEL := calls w1 GEMINI_IMAGE_MODEL + k + 1),
                       sleeps := sleeps w1 @ map (Pair Image_retry) (backoffs k)
                                   @ [(Image_pacing, 1)]\<rparr>) of
              (rest, w') \<Rightarrow> (imgs @ None # rest, w'))"
proof -
  let ?w2 = "w1\<lparr>calls := (calls w1)(GEMINI_IMAGE_MODEL := calls w1 GEMINI_IMAGE_MODEL + k + 1),
                 sleeps := sleeps w1 @ map (Pair Image_retry) (backoffs k)\<rparr>"
  let ?w3 = "w1\<lparr>calls := (calls w1)(GEMINI_IMAGE_MODEL := calls w1 GEMINI_IMAGE_MODEL + k + 1),
                 sleeps := sleeps w1 @ map (Pair Image_retry) (backoffs k) @ [(Image_pacing, 1)]\<rparr>"
  from assms(1,2,4) have l: "generate_images_loop e ps [] w = (imgs, w1)"
    by (simp add: generate_images_def)
  have a: "image_attempts e [0..<max_retries] imgs w1 = (imgs @ [None], ?w2)"
    by (rule image_quota_after_failures [OF assms(3,5,6)])
  have w3: "sleep Image_pacing 1 ?w2 = ?w3" by (simp add: sleep_def)
  have "generate_images_loop e (ps @ p # qs) [] w = generate_images_loop e (p # qs) imgs w1"
    using l by (simp add: generate_images_loop_append)
  also have "\<dots> = generate_images_loop e qs (imgs @ [None]) ?w3"
    by (simp only: generate_images_loop.simps a prod.case w3)
  also have "\<dots> = ((imgs @ [None]) @ fst (generate_images_loop e qs [] ?w3),
                    snd (generate_images_loop e qs [] ?w3))"
    by (rule generate_images_loop_acc)
  finally show ?thesis
    using assms(1,2) by (simp add: generate_images_def split: prod.splits)
qed

lemma loop_success:
  assumes "image_call_succeeds e (calls w GEMINI_IMAGE_MODEL) d"
  shows "generate_images_loop e (p # ps) imgs w =
           generate_images_loop e ps (imgs @ [Some d])
             (sleep Image_pacing 1
                (w\<lparr>calls := (calls w)(GEMINI_IMAGE_MODEL := Suc (calls w GEMINI_IMAGE_MODEL))\<rparr>))"
proof -
  have "image_attempts e [0..<max_retries] imgs w =
          (imgs @ [Some d],
           w\<lparr>calls := (calls w)(GEMINI_IMAGE_MODEL := Suc (calls w GEMINI_IMAGE_MODEL))\<rparr>)"
    unfolding range3 by (rule image_success_step [OF assms])
  then show ?thesis by (simp only: generate_images_loop.simps prod.case)
qed

lemma loop_quota:
  assumes "image_call_quota e (calls w GEMINI_IMAGE_MODEL)"
  shows "generate_images_loop e (p # ps) imgs w =
           generate_images_loop e ps (imgs @ [None])
             (sleep Image_pacing 1
                (w\<lparr>calls := (calls w)(GEMINI_IMAGE_MODEL := Suc (calls w GEMINI_IMAGE_MODEL))\<rparr>))"
proof -
  have "image_attempts e [0..<max_retries] imgs w =
          (imgs @ [None],
           w\<lparr>calls := (calls w)(GEMINI_IMAGE_MODEL := Suc (calls w GEMINI_IMAGE_MODEL))\<rparr>)"
    unfolding range3 by (rule image_quota_step [OF assms])
  then show ?thesis by (simp only: generate_images_loop.simps prod.case)
qed

lemma four_prompts_second_quota:
  assumes "API_INITIALIZED e" "client_set e"
    and "image_call_succeeds e (calls w GEMINI_IMAGE_MODEL) d1"
    and "image_call_quota e (calls w GEMINI_IMAGE_MODEL + 1)"
    and "image_call_succeeds e (calls w GEMINI_IMAGE_MODEL + 2) d3"
    and "image_call_succeeds e (calls w GEMINI_IMAGE_MODEL + 3) d4"
  shows "generate_images e [p1, p2, p3, p4] ctx w =
           ([Some d1, None, Some d3, Some d4],
            w\<lparr>calls := (calls w)(GEMINI_IMAGE_MODEL := calls w GEMINI_IMAGE_MODEL + 4),
               sleeps := sleeps w @ [(Image_pacing, 1), (Image_pacing, 1), (Image_pacing, 1),
                                      (Image_pacing, 1)]\<rparr>)"
proof -
  let ?n = "calls w GEMINI_IMAGE_MODEL"
  let ?w1 = "sleep Image_pacing 1 (w\<lparr>calls := (calls w)(GEMINI_IMAGE_MODEL := Suc ?n)\<rparr>)"
  let ?w2 = "sleep Image_pacing 1
               (?w1\<lparr>calls := (calls ?w1)(GEMINI_IMAGE_MODEL := Suc (calls ?w1 GEMINI_IMAGE_MODEL))\<rparr>)"
  let ?w3 = "sleep Image_pacing 1
               (?w2\<lparr>calls := (calls ?w2)(GEMINI_IMAGE_MODEL := Suc (calls ?w2 GEMINI_IMAGE_MODEL))\<rparr>)"
  let ?w4 = "sleep Image_pacing 1
               (?w3\<lparr>calls := (calls ?w3)(GEMINI_IMAGE_MODEL := Suc (calls ?w3 GEMINI_IMAGE_MODEL))\<rparr>)"
  have c1: "calls ?w1 GEMINI_IMAGE_MODEL = ?n + 1" by simp
  have c2: "calls ?w2 GEMINI_IMAGE_MODEL = ?n + 2" by simp
  have c3: "calls ?w3 GEMINI_IMAGE_MODEL = ?n + 3" by simp
  have "generate_images_loop e [p1, p2, p3, p4] [] w
          = generate_images_loop e [p2, p3, p4] ([] @ [Some d1]) ?w1"
    by (rule loop_success [OF assms(3)])
  also have "\<dots> = generate_images_loop e [p3, p4] (([] @ [Some d1]) @ [None]) ?w2"
    by (rule loop_quota) (simp only: c1 assms(4))
  also have "\<dots> = generate_images_loop e [p4] ((([] @ [Some d1]) @ [None]) @ [Some d3]) ?w3"
    by (rule loop_success) (simp only: c2 assms(5))
  also have "\<dots> = generate_images_loop e []
                      (((([] @ [Some d1]) @ [None]) @ [Some d3]) @ [Some d4]) ?w4"
    by (rule loop_success) (simp only: c3 assms(6))
  finally have "generate_images_loop e [p1, p2, p3, p4] [] w
      = ([Some d1, None, Some d3, Some d4], ?w4)"
    by simp
  moreover have "?w4 = w\<lparr>calls := (calls w)(GEMINI_IMAGE_MODEL := ?n + 4),
               sleeps := sleeps w @ [(Image_pacing, 1), (Image_pacing, 1), (Image_pacing, 1),
                                      (Image_pacing, 1)]\<rparr>"
  proof -
    have e4: "?n + 4 = Suc (Suc (Suc (Suc ?n)))" by simp
    show ?thesis unfolding e4 by (simp add: sleep_def)
  qed
  ultimately show ?thesis using assms(1,2) by (simp add: generate_images_def)
qed

lemma not_quota_500: "\<not> quota_signature ''500 Internal error''"
  by (simp add: quota_signature_def lower_def sublist_Cons_right)

lemma quota_429: "quota_signature ''429 Too Many Requests''"
  by (simp add: quota_signature_def sublist_Cons_right)

lemma quota_word: "quota_signature ''Quota exceeded''"
  by code_simp

lemma not_quota_exhausted:
  "\<not> quota_signature ''Failed to generate story after 3 attempts: 500 Internal error''"
  by (simp add: quota_signature_def lower_def sublist_Cons_right)

section \<open>The claims on the pipeline\<close>

text \<open>
  Claim C1. \<open>process_story_request\<close> returns a dict for every input, every backend and
  every library behaviour: it does not raise. When the API was not initialized the dict
  is the serialized fallback story for the default description and nothing is called;
  when \<open>generate_story\<close> raises, the dict is the serialized fallback story for the
  description that \<open>analyze_photo\<close> returned (the default one if that is empty).
\<close>

theorem process_story_request_never_raises:
  "(\<exists>d. fst (process_story_request e kid_name kid_photo age_level theme story_type
               story_length special_ingredients w) = Inr d)
   \<and> (\<not> API_INITIALIZED e \<longrightarrow>
        (\<exists>st. create_fallback_story kid_name theme story_type story_length
                 special_ingredients default_description = Inr st
            \<and> process_story_request e kid_name kid_photo age_level theme story_type
                 story_length special_ingredients w = (Inr (to_dict st), w)))
   \<and> (API_INITIALIZED e \<longrightarrow>
        (\<forall>err. fst (generate_story e kid_name age_level theme story_type story_length
                       special_ingredients (fst (analyze_photo e kid_photo w))
                       (snd (analyze_photo e kid_photo w))) = Inl err \<longrightarrow>
           (\<exists>st. create_fallback_story kid_name theme story_type story_length
                    special_ingredients
                    (if fst (analyze_photo e kid_photo w) \<noteq> []
                     then fst (analyze_photo e kid_photo w) else default_description) = Inr st
               \<and> fst (process_story_request e kid_name kid_photo age_level theme story_type
                         story_length special_ingredients w) = Inr (to_dict st))))"
proof -
  let ?fb = "\<lambda>cd. create_fallback_story kid_name theme story_type story_length
                    special_ingredients cd"
  obtain desc w1 where a: "analyze_photo e kid_photo w = (desc, w1)"
    by (cases "analyze_photo e kid_photo w")
  obtain r w2 where g: "generate_story e kid_name age_level theme story_type story_length
                          special_ingredients desc w1 = (r, w2)"
    by (cases "generate_story e kid_name age_level theme story_type story_length
                 special_ingredients desc w1")
  obtain st0 where st0: "?fb default_description = Inr st0"
    using create_fallback_story_total by blast
  obtain st1 where st1: "?fb (if desc \<noteq> [] then desc else default_description) = Inr st1"
    using create_fallback_story_total by blast
  have off: "\<not> API_INITIALIZED e \<Longrightarrow>
      process_story_request e kid_name kid_photo age_level theme story_type
        story_length special_ingredients w = (Inr (to_dict st0), w)"
    using st0 by (simp add: process_story_request_def)
  have on_ok: "API_INITIALIZED e \<Longrightarrow> r = Inr (Some st) \<Longrightarrow>
      process_story_request e kid_name kid_photo age_level theme story_type
        story_length special_ingredients w = (Inr (to_dict st), w2)" for st
    using a g by (simp add: process_story_request_def)
  have on_fail: "API_INITIALIZED e \<Longrightarrow> r = Inl err \<or> r = Inr None \<Longrightarrow>
      process_story_request e kid_name kid_photo age_level theme story_type
        story_length special_ingredients w = (Inr (to_dict st1), w2)" for err
    using a g st1 by (auto simp add: process_story_request_def Let_def)
  have total: "\<exists>d. fst (process_story_request e kid_name kid_photo age_level theme story_type
               story_length special_ingredients w) = Inr d"
  proof (cases "API_INITIALIZED e")
    case False
    with off show ?thesis by simp
  next
    case True
    show ?thesis
    proof (cases r)
      case (Inl err)
      with on_fail [OF True] show ?thesis by simp
    next
      case (Inr v)
      show ?thesis
      proof (cases v)
        case None
        with Inr on_fail [OF True] show ?thesis by simp
      next
        case (Some st)
        with Inr on_ok [OF True] show ?thesis by simp
      qed
    qed
  qed
  have raised: "API_INITIALIZED e \<Longrightarrow> r = Inl err \<Longrightarrow>
      fst (process_story_request e kid_name kid_photo age_level theme story_type
             story_length special_ingredients w) = Inr (to_dict st1)" for err
    using on_fail [of err] by simp
  show ?thesis
    using total off st0 st1 raised a g by auto
qed

theorem process_story_request_never_raises_witness:
  "API_INITIALIZED \<lparr>API_INITIALIZED = True, client_set = True,
       generate_content = (\<lambda>m n. Raises ''500 Internal error''),
       Image_open = (\<lambda>b. Inr ()), json_loads = (\<lambda>s. Inl ''Expecting value''),
       strip = (\<lambda>s. s)\<rparr>
   \<and> fst (generate_story \<lparr>API_INITIALIZED = True, client_set = True,
             generate_content = (\<lambda>m n. Raises ''500 Internal error''),
             Image_open = (\<lambda>b. Inr ()), json_loads = (\<lambda>s. Inl ''Expecting value''),
             strip = (\<lambda>s. s)\<rparr>
           ''Mia'' ''3-5'' ''space'' ''adventure'' ''short'' []
           (fst (analyze_photo \<lparr>API_INITIALIZED = True, client_set = True,
                   generate_content = (\<lambda>m n. Raises ''500 Internal error''),
                   Image_open = (\<lambda>b. Inr ()), json_loads = (\<lambda>s. Inl ''Expecting value''),
                   strip = (\<lambda>s. s)\<rparr> [] \<lparr>calls = (\<lambda>m. 0), sleeps = []\<rparr>))
           (snd (analyze_photo \<lparr>API_INITIALIZED = True, client_set = True,
                   generate_content = (\<lambda>m n. Raises ''500 Internal error''),
                   Image_open = (\<lambda>b. Inr ()), json_loads = (\<lambda>s. Inl ''Expecting value''),
                   strip = (\<lambda>s. s)\<rparr> [] \<lparr>calls = (\<lambda>m. 0), sleeps = []\<rparr>)))
       = Inl ''Failed to generate story after 3 attempts: 500 Internal error''
   \<and> (\<exists>st. create_fallback_story ''Mia'' ''space'' ''adventure'' ''short'' []
              default_description = Inr st
         \<and> fst (process_story_request \<lparr>API_INITIALIZED = True, client_set = True,
                   generate_content = (\<lambda>m n. Raises ''500 Internal error''),
                   Image_open = (\<lambda>b. Inr ()), json_loads = (\<lambda>s. Inl ''Expecting value''),
                   strip = (\<lambda>s. s)\<rparr>
                 ''Mia'' [] ''3-5'' ''space'' ''adventure'' ''short'' []
                 \<lparr>calls = (\<lambda>m. 0), sleeps = []\<rparr>) = Inr (to_dict st))"
proof -
  let ?e = "\<lparr>API_INITIALIZED = True, client_set = True,
       generate_content = (\<lambda>m n. Raises ''500 Internal error''),
       Image_open = (\<lambda>b. Inr ()), json_loads = (\<lambda>s. Inl ''Expecting value''),
       strip = (\<lambda>s. s)\<rparr>"
  let ?w = "\<lparr>calls = (\<lambda>m. 0::nat), sleeps = []\<rparr>"
  have i: "API_INITIALIZED ?e" by simp
  have a: "fst (analyze_photo ?e [] ?w) = default_description"
    by (simp add: analyze_photo_def range3 call_eq not_quota_500)
  have g: "fst (generate_story ?e ''Mia'' ''3-5'' ''space'' ''adventure'' ''short'' []
                  (fst (analyze_photo ?e [] ?w)) (snd (analyze_photo ?e [] ?w)))
             = Inl ''Failed to generate story after 3 attempts: 500 Internal error''"
    unfolding generate_story_def Let_def range3
    by (simp add: story_attempt_def call_eq not_quota_500 not_quota_exhausted max_retries_def)
  have d: "default_description \<noteq> []" by (simp add: default_description_def)
  from process_story_request_never_raises
         [of ?e "''Mia''" "[]" "''3-5''" "''space''" "''adventure''" "''short''" "[]" ?w]
       i g
  have "\<exists>st. create_fallback_story ''Mia'' ''space'' ''adventure'' ''short'' []
              (if fst (analyze_photo ?e [] ?w) \<noteq> []
               then fst (analyze_photo ?e [] ?w) else default_description) = Inr st
         \<and> fst (process_story_request ?e ''Mia'' [] ''3-5'' ''space'' ''adventure'' ''short'' []
                  ?w) = Inr (to_dict st)"
    by blast
  then have "\<exists>st. create_fallback_story ''Mia'' ''space'' ''adventure'' ''short'' []
              default_description = Inr st
         \<and> fst (process_story_request ?e ''Mia'' [] ''3-5'' ''space'' ''adventure'' ''short'' []
                  ?w) = Inr (to_dict st)"
    unfolding a using d by simp
  with i g show ?thesis by blast
qed

text \<open>
  Claim C2. \<open>generate_images\<close> returns one entry per prompt, each null or non-empty image
  data (all null, with no call, when the client is missing). When the attempts for the
  prompt at position \<open>length ps\<close> end in an error with a quota signature, after \<open>k\<close>
  failed attempts, that position holds null, no further call is made for that prompt, and
  after the pause the remaining prompts are processed as usual. With four prompts of
  which the second meets a quota error and the others succeed at once the result is
  \<open>[img, null, img, img]\<close>.
\<close>

theorem generate_images_positional:
  "length (fst (generate_images e prompts story_context w)) = length prompts
   \<and> (\<forall>x\<in>set (fst (generate_images e prompts story_context w)).
         x = None \<or> (\<exists>d. x = Some d \<and> d \<noteq> []))
   \<and> (\<not> API_INITIALIZED e \<or> \<not> client_set e \<longrightarrow>
        generate_images e prompts story_context w = (replicate (length prompts) None, w))
   \<and> (API_INITIALIZED e \<and> client_set e \<and> k < max_retries
        \<and> generate_images e ps story_context w = (imgs, w1)
        \<and> (\<forall>j<k. image_call_fails e (calls w1 GEMINI_IMAGE_MODEL + j))
        \<and> image_call_quota e (calls w1 GEMINI_IMAGE_MODEL + k) \<longrightarrow>
        length imgs = length ps
        \<and> generate_images e (ps @ p # qs) story_context w =
            (case generate_images e qs story_context
                    (w1\<lparr>calls := (calls w1)
                                    (GEMINI_IMAGE_MODEL := calls w1 GEMINI_IMAGE_MODEL + k + 1),
                        sleeps := sleeps w1 @ map (Pair Image_retry) (backoffs k)
                                    @ [(Image_pacing, 1)]\<rparr>) of
               (rest, w') \<Rightarrow> (imgs @ None # rest, w')))
   \<and> (API_INITIALIZED e \<and> client_set e
        \<and> image_call_succeeds e (calls w GEMINI_IMAGE_MODEL) d1
        \<and> image_call_quota e (calls w GEMINI_IMAGE_MODEL + 1)
        \<and> image_call_succeeds e (calls w GEMINI_IMAGE_MODEL + 2) d3
        \<and> image_call_succeeds e (calls w GEMINI_IMAGE_MODEL + 3) d4 \<longrightarrow>
        generate_images e [p1, p2, p3, p4] story_context w =
          ([Some d1, None, Some d3, Some d4],
           w\<lparr>calls := (calls w)(GEMINI_IMAGE_MODEL := calls w GEMINI_IMAGE_MODEL + 4),
              sleeps := sleeps w @ [(Image_pacing, 1), (Image_pacing, 1), (Image_pacing, 1),
                                     (Image_pacing, 1)]\<rparr>))"
proof (intro conjI impI)
  show "length (fst (generate_images e prompts story_context w)) = length prompts"
    by (rule generate_images_entries)
  show "\<forall>x\<in>set (fst (generate_images e prompts story_context w)).
          x = None \<or> (\<exists>d. x = Some d \<and> d \<noteq> [])"
    by (rule generate_images_entries)
  show "generate_images e prompts story_context w = (replicate (length prompts) None, w)"
    if "\<not> API_INITIALIZED e \<or> \<not> client_set e"
    using that by (auto simp add: generate_images_def)
next
  assume h: "API_INITIALIZED e \<and> client_set e \<and> k < max_retries
        \<and> generate_images e ps story_context w = (imgs, w1)
        \<and> (\<forall>j<k. image_call_fails e (calls w1 GEMINI_IMAGE_MODEL + j))
        \<and> image_call_quota e (calls w1 GEMINI_IMAGE_MODEL + k)"
  show "length imgs = length ps"
    using generate_images_entries(1) [of e ps story_context w] h by simp
  show "generate_images e (ps @ p # qs) story_context w =
            (case generate_images e qs story_context
                    (w1\<lparr>calls := (calls w1)
                                    (GEMINI_IMAGE_MODEL := calls w1 GEMINI_IMAGE_MODEL + k + 1),
                        sleeps := sleeps w1 @ map (Pair Image_retry) (backoffs k)
                                    @ [(Image_pacing, 1)]\<rparr>) of
               (rest, w') \<Rightarrow> (imgs @ None # rest, w'))"
    using h by (intro generate_images_quota_at) simp_all
next
  assume h: "API_INITIALIZED e \<and> client_set e
        \<and> image_call_succeeds e (calls w GEMINI_IMAGE_MODEL) d1
        \<and> image_call_quota e (calls w GEMINI_IMAGE_MODEL + 1)
        \<and> image_call_succeeds e (calls w GEMINI_IMAGE_MODEL + 2) d3
        \<and> image_call_succeeds e (calls w GEMINI_IMAGE_MODEL + 3) d4"
  show "generate_images e [p1, p2, p3, p4] story_context w =
          ([Some d1, None, Some d3, Some d4],
           w\<lparr>calls := (calls w)(GEMINI_IMAGE_MODEL := calls w GEMINI_IMAGE_MODEL + 4),
              sleeps := sleeps w @ [(Image_pacing, 1), (Image_pacing, 1), (Image_pacing, 1),
                                     (Image_pacing, 1)]\<rparr>)"
    using h by (intro four_prompts_second_quota) simp_all
qed

theorem generate_images_positional_witness:
  "image_call_succeeds
     \<lparr>API_INITIALIZED = True, client_set = True,
      generate_content = (\<lambda>m n. if n = 1 then Raises ''429 Too Many Requests''
                                else Returns \<lparr>resp_text = [], resp_parts = [None, Some [1, 2]]\<rparr>),
      Image_open = (\<lambda>b. Inr ()), json_loads = (\<lambda>s. Inl ''Expecting value''),
      strip = (\<lambda>s. s)\<rparr> 0 [1, 2]
   \<and> image_call_quota
     \<lparr>API_INITIALIZED = True, client_set = True,
      generate_content = (\<lambda>m n. if n = 1 then Raises ''429 Too Many Requests''
                                else Returns \<lparr>resp_text = [], resp_parts = [None, Some [1, 2]]\<rparr>),
      Image_open = (\<lambda>b. Inr ()), json_loads = (\<lambda>s. Inl ''Expecting value''),
      strip = (\<lambda>s. s)\<rparr> 1
   \<and> fst (generate_images
     \<lparr>API_INITIALIZED = True, client_set = True,
      generate_content = (\<lambda>m n. if n = 1 then Raises ''429 Too Many Requests''
                                else Returns \<lparr>resp_text = [], resp_parts = [None, Some [1, 2]]\<rparr>),
      Image_open = (\<lambda>b. Inr ()), json_loads = (\<lambda>s. Inl ''Expecting value''),
      strip = (\<lambda>s. s)\<rparr> [''a'', ''b'', ''c'', ''d''] ''a b c d''
     \<lparr>calls = (\<lambda>m. 0), sleeps = []\<rparr>)
     = [Some [1, 2], None, Some [1, 2], Some [1, 2]]"
proof -
  let ?e = "\<lparr>API_INITIALIZED = True, client_set = True,
      generate_content = (\<lambda>m n. if n = 1 then Raises ''429 Too Many Requests''
                                else Returns \<lparr>resp_text = [], resp_parts = [None, Some [1, 2]]\<rparr>),
      Image_open = (\<lambda>b. Inr ()), json_loads = (\<lambda>s. Inl ''Expecting value''),
      strip = (\<lambda>s. s)\<rparr>"
  let ?w = "\<lparr>calls = (\<lambda>m. 0::nat), sleeps = []\<rparr>"
  have i: "API_INITIALIZED ?e \<and> client_set ?e" by simp
  have s: "image_call_succeeds ?e n [1, 2]" if "n \<noteq> 1" for n
    using that by (simp add: image_call_succeeds_def first_inline_data_def)
  have q: "image_call_quota ?e 1"
    by (simp add: image_call_quota_def quota_429)
  have c: "calls ?w GEMINI_IMAGE_MODEL = 0" by simp
  have h: "API_INITIALIZED ?e \<and> client_set ?e
        \<and> image_call_succeeds ?e (calls ?w GEMINI_IMAGE_MODEL) [1, 2]
        \<and> image_call_quota ?e (calls ?w GEMINI_IMAGE_MODEL + 1)
        \<and> image_call_succeeds ?e (calls ?w GEMINI_IMAGE_MODEL + 2) [1, 2]
        \<and> image_call_succeeds ?e (calls ?w GEMINI_IMAGE_MODEL + 3) [1, 2]"
    unfolding c using i q s [of 0] s [of "0 + 2"] s [of "0 + 3"] by simp
  from generate_images_positional
         [of ?e "[]" "''a b c d''" ?w 0 "[]" "[]" ?w "''a''" "[]" "[1, 2]" "[1, 2]" "[1, 2]"
            "''a''" "''b''" "''c''" "''d''"] h
  have "generate_images ?e [''a'', ''b'', ''c'', ''d''] ''a b c d'' ?w =
          ([Some [1, 2], None, Some [1, 2], Some [1, 2]],
           ?w\<lparr>calls := (calls ?w)(GEMINI_IMAGE_MODEL := calls ?w GEMINI_IMAGE_MODEL + 4),
              sleeps := sleeps ?w @ [(Image_pacing, 1), (Image_pacing, 1), (Image_pacing, 1),
                                     (Image_pacing, 1)]\<rparr>)"
    by blast
  then have "fst (generate_images ?e [''a'', ''b'', ''c'', ''d''] ''a b c d'' ?w)
      = [Some [1, 2], None, Some [1, 2], Some [1, 2]]"
    by (simp only: fst_conv)
  with s [of 0] q show ?thesis by simp
qed

text \<open>
  Claim C3. In each of the three retry loops an attempt that fails with an error whose
  text contains \<open>429\<close>, or \<open>quota\<close> in any case, is the last one: no call and no backoff
  sleep follows it. With \<open>k\<close> failed attempts before it, \<open>generate_story\<close> returns the
  fallback story after \<open>k + 1\<close> calls of the text model and the \<open>k\<close> backoff sleeps of the
  failed attempts; \<open>analyze_photo\<close> returns the default description and
  the attempts for an image end with null, the world holding exactly \<open>k + 1\<close> more calls
  and those \<open>k\<close> sleeps. The attempt itself changes nothing but the call count.
\<close>

theorem quota_error_stops_retrying:
  assumes "API_INITIALIZED e" "client_set e" "k < max_retries"
  shows "((\<forall>j<k. story_call_fails e (calls w GEMINI_TEXT_MODEL + j))
          \<and> story_call_quota e (calls w GEMINI_TEXT_MODEL + k) \<longrightarrow>
          (\<exists>st w'. create_fallback_story kid_name theme story_type story_length
                      special_ingredients child_description = Inr st
             \<and> generate_story e kid_name age_level theme story_type story_length
                  special_ingredients child_description w = (Inr (Some st), w')
             \<and> calls w' GEMINI_TEXT_MODEL = calls w GEMINI_TEXT_MODEL + k + 1
             \<and> slept Story_retry w' = slept Story_retry w @ backoffs k))
       \<and> (story_call_quota e (calls w GEMINI_TEXT_MODEL) \<longrightarrow>
          generate_story_loop e fallback (attempt # rest) w =
            (map_sum id Some fallback,
             w\<lparr>calls := (calls w)(GEMINI_TEXT_MODEL := Suc (calls w GEMINI_TEXT_MODEL))\<rparr>))
       \<and> (Image_open e photo_bytes = Inr ()
          \<and> (\<forall>j<k. photo_call_fails e (calls w GEMINI_VISION_MODEL + j))
          \<and> photo_call_quota e (calls w GEMINI_VISION_MODEL + k) \<longrightarrow>
          analyze_photo e photo_bytes w =
            (default_description,
             w\<lparr>calls := (calls w)(GEMINI_VISION_MODEL := calls w GEMINI_VISION_MODEL + k + 1),
                sleeps := sleeps w @ map (Pair Photo_retry) (backoffs k)\<rparr>))
       \<and> ((\<forall>j<k. image_call_fails e (calls w GEMINI_IMAGE_MODEL + j))
          \<and> image_call_quota e (calls w GEMINI_IMAGE_MODEL + k) \<longrightarrow>
          image_attempts e [0..<max_retries] imgs w =
            (imgs @ [None],
             w\<lparr>calls := (calls w)(GEMINI_IMAGE_MODEL := calls w GEMINI_IMAGE_MODEL + k + 1),
                sleeps := sleeps w @ map (Pair Image_retry) (backoffs k)\<rparr>))"
proof (intro conjI impI)
  assume h: "(\<forall>j<k. story_call_fails e (calls w GEMINI_TEXT_MODEL + j))
          \<and> story_call_quota e (calls w GEMINI_TEXT_MODEL + k)"
  show "\<exists>st w'. create_fallback_story kid_name theme story_type story_length
                      special_ingredients child_description = Inr st
             \<and> generate_story e kid_name age_level theme story_type story_length
                  special_ingredients child_description w = (Inr (Some st), w')
             \<and> calls w' GEMINI_TEXT_MODEL = calls w GEMINI_TEXT_MODEL + k + 1
             \<and> slept Story_retry w' = slept Story_retry w @ backoffs k"
    using assms h by (intro story_quota_after_failures) simp_all
next
  assume "story_call_quota e (calls w GEMINI_TEXT_MODEL)"
  then show "generate_story_loop e fallback (attempt # rest) w =
            (map_sum id Some fallback,
             w\<lparr>calls := (calls w)(GEMINI_TEXT_MODEL := Suc (calls w GEMINI_TEXT_MODEL))\<rparr>)"
    by (rule story_quota_step)
next
  assume h: "Image_open e photo_bytes = Inr ()
          \<and> (\<forall>j<k. photo_call_fails e (calls w GEMINI_VISION_MODEL + j))
          \<and> photo_call_quota e (calls w GEMINI_VISION_MODEL + k)"
  show "analyze_photo e photo_bytes w =
            (default_description,
             w\<lparr>calls := (calls w)(GEMINI_VISION_MODEL := calls w GEMINI_VISION_MODEL + k + 1),
                sleeps := sleeps w @ map (Pair Photo_retry) (backoffs k)\<rparr>)"
    using assms h by (intro photo_quota_after_failures) simp_all
next
  assume h: "(\<forall>j<k. image_call_fails e (calls w GEMINI_IMAGE_MODEL + j))
          \<and> image_call_quota e (calls w GEMINI_IMAGE_MODEL + k)"
  show "image_attempts e [0..<max_retries] imgs w =
            (imgs @ [None],
             w\<lparr>calls := (calls w)(GEMINI_IMAGE_MODEL := calls w GEMINI_IMAGE_MODEL + k + 1),
                sleeps := sleeps w @ map (Pair Image_retry) (backoffs k)\<rparr>)"
    using assms h by (intro image_quota_after_failures) simp_all
qed

theorem quota_error_stops_retrying_witness:
  "(1::nat) < max_retries
   \<and> photo_call_fails
        \<lparr>API_INITIALIZED = True, client_set = True,
         generate_content = (\<lambda>m n. if n = 0 then Raises ''500 Internal error''
                                   else Raises ''Quota exceeded''),
         Image_open = (\<lambda>b. Inr ()), json_loads = (\<lambda>s. Inl ''Expecting value''),
         strip = (\<lambda>s. s)\<rparr> 0
   \<and> photo_call_quota
        \<lparr>API_INITIALIZED = True, client_set = True,
         generate_content = (\<lambda>m n. if n = 0 then Raises ''500 Internal error''
                                   else Raises ''Quota exceeded''),
         Image_open = (\<lambda>b. Inr ()), json_loads = (\<lambda>s. Inl ''Expecting value''),
         strip = (\<lambda>s. s)\<rparr> 1
   \<and> analyze_photo
        \<lparr>API_INITIALIZED = True, client_set = True,
         generate_content = (\<lambda>m n. if n = 0 then Raises ''500 Internal error''
                                   else Raises ''Quota exceeded''),
         Image_open = (\<lambda>b. Inr ()), json_loads = (\<lambda>s. Inl ''Expecting value''),
         strip = (\<lambda>s. s)\<rparr> [] \<lparr>calls = (\<lambda>m. 0), sleeps = []\<rparr>
       = (default_description,
          \<lparr>calls = (\<lambda>m. 0)(GEMINI_VISION_MODEL := 2), sleeps = [(Photo_retry, 2)]\<rparr>)
   \<and> (\<exists>st w'. generate_story
        \<lparr>API_INITIALIZED = True, client_set = True,
         generate_content = (\<lambda>m n. if n = 0 then Raises ''500 Internal error''
                                   else Raises ''Quota exceeded''),
         Image_open = (\<lambda>b. Inr ()), json_loads = (\<lambda>s. Inl ''Expecting value''),
         strip = (\<lambda>s. s)\<rparr> ''Mia'' ''3-5'' ''space'' ''adventure'' ''short'' [] []
         \<lparr>calls = (\<lambda>m. 0), sleeps = []\<rparr> = (Inr (Some st), w')
        \<and> create_fallback_story ''Mia'' ''space'' ''adventure'' ''short'' [] [] = Inr st
        \<and> calls w' GEMINI_TEXT_MODEL = 2 \<and> slept Story_retry w' = [2])"
proof -
  let ?e = "\<lparr>API_INITIALIZED = True, client_set = True,
         generate_content = (\<lambda>m n. if n = 0 then Raises ''500 Internal error''
                                   else Raises ''Quota exceeded''),
         Image_open = (\<lambda>b. Inr ()), json_loads = (\<lambda>s. Inl ''Expecting value''),
         strip = (\<lambda>s. s)\<rparr>"
  let ?w = "\<lparr>calls = (\<lambda>m. 0::nat), sleeps = []\<rparr>"
  have i: "API_INITIALIZED ?e" "client_set ?e" "(1::nat) < max_retries"
    by (simp_all add: max_retries_def)
  have pf: "photo_call_fails ?e 0" by (simp add: photo_call_fails_def not_quota_500)
  have pq: "photo_call_quota ?e 1" by (simp add: photo_call_quota_def quota_word)
  have sf: "story_call_fails ?e 0" by (simp add: story_call_fails_def not_quota_500)
  have sq: "story_call_quota ?e 1" by (simp add: story_call_quota_def quota_word)
  have b: "backoffs 1 = [2]" by (simp add: backoffs_def base_delay_def)
  note t = quota_error_stops_retrying [OF i, of ?w "''Mia''" "''space''" "''adventure''"
      "''short''" "[]" "[]" "''3-5''" "Inl []" 0 "[]" "[]" "[]"]
  have hs: "(\<forall>j<1. story_call_fails ?e (calls ?w GEMINI_TEXT_MODEL + j))
          \<and> story_call_quota ?e (calls ?w GEMINI_TEXT_MODEL + 1)"
    using sf sq by simp
  have hp: "Image_open ?e [] = Inr ()
          \<and> (\<forall>j<1. photo_call_fails ?e (calls ?w GEMINI_VISION_MODEL + j))
          \<and> photo_call_quota ?e (calls ?w GEMINI_VISION_MODEL + 1)"
    using pf pq by simp
  from t hs have "\<exists>st w'. create_fallback_story ''Mia'' ''space'' ''adventure'' ''short'' [] []
                      = Inr st
             \<and> generate_story ?e ''Mia'' ''3-5'' ''space'' ''adventure'' ''short'' [] [] ?w
                  = (Inr (Some st), w')
             \<and> calls w' GEMINI_TEXT_MODEL = calls ?w GEMINI_TEXT_MODEL + 1 + 1
             \<and> slept Story_retry w' = slept Story_retry ?w @ backoffs 1"
    by blast
  then have s: "\<exists>st w'. generate_story ?e ''Mia'' ''3-5'' ''space'' ''adventure'' ''short'' [] [] ?w
                  = (Inr (Some st), w')
             \<and> create_fallback_story ''Mia'' ''space'' ''adventure'' ''short'' [] [] = Inr st
             \<and> calls w' GEMINI_TEXT_MODEL = 2 \<and> slept Story_retry w' = [2]"
    unfolding b by (auto simp add: slept_def)
  from t hp have "analyze_photo ?e [] ?w =
            (default_description,
             ?w\<lparr>calls := (calls ?w)(GEMINI_VISION_MODEL := calls ?w GEMINI_VISION_MODEL + 1 + 1),
                sleeps := sleeps ?w @ map (Pair Photo_retry) (backoffs 1)\<rparr>)"
    by blast
  then have p: "analyze_photo ?e [] ?w =
       (default_description,
        \<lparr>calls = (\<lambda>m. 0)(GEMINI_VISION_MODEL := 2), sleeps = [(Photo_retry, 2)]\<rparr>)"
    unfolding b by (simp add: numeral_2_eq_2)
  from i(3) pf pq p s show ?thesis by blast
qed

text \<open>
  Claim C4. With at most 3 attempts and a base delay of 2, when the first \<open>k < 3\<close>
  attempts of \<open>generate_story\<close> fail with errors that have no quota signature and the
  next one succeeds, the result is the story built from the parsed fields of that attempt
  and the images generated for its prompts, after \<open>k + 1\<close> calls of the text model, and
  the retry loop has slept exactly \<open>k\<close> times, for \<open>2 * 2^0, \<dots>, 2 * 2^(k-1)\<close> in
  that order (both when the illustrations start and at the end).
\<close>

theorem retry_backoff_then_success:
  assumes "API_INITIALIZED e" "client_set e"
    and "k < max_retries"
    and "\<forall>j<k. story_call_fails e (calls w GEMINI_TEXT_MODEL + j)"
    and "story_call_succeeds e (calls w GEMINI_TEXT_MODEL + k)
           \<lparr>j_title = Some t, j_moral = Some m, j_story = Some sentences,
            j_imagePrompts = Some prompts\<rparr>"
  shows "max_retries = 3 \<and> base_delay = 2
       \<and> backoffs k = map (\<lambda>i. 2 * 2 ^ i) [0..<k] \<and> length (backoffs k) = k
       \<and> (\<exists>w1 imgs w'.
             calls w1 GEMINI_TEXT_MODEL = calls w GEMINI_TEXT_MODEL + k + 1
           \<and> slept Story_retry w1 = slept Story_retry w @ backoffs k
           \<and> generate_images e prompts (join '' '' sentences) w1 = (imgs, w')
           \<and> generate_story e kid_name age_level theme story_type story_length
                 special_ingredients child_description w
               = (Inr (Some (Story_init t m sentences prompts (Some imgs))), w')
           \<and> calls w' GEMINI_TEXT_MODEL = calls w GEMINI_TEXT_MODEL + k + 1
           \<and> slept Story_retry w' = slept Story_retry w @ backoffs k)"
  using story_success_after_failures [OF assms] backoffs_values [of k]
  by (simp add: max_retries_def base_delay_def)

theorem retry_backoff_then_success_witness:
  "(2::nat) < max_retries
   \<and> story_call_fails
        \<lparr>API_INITIALIZED = True, client_set = True,
         generate_content = (\<lambda>m n. if n < 2 then Raises ''500 Internal error''
                                   else Returns \<lparr>resp_text = ''{}'', resp_parts = []\<rparr>),
         Image_open = (\<lambda>b. Inr ()),
         json_loads = (\<lambda>s. Inr \<lparr>j_title = Some ''T'', j_moral = Some ''M'',
                                  j_story = Some [''a'', ''b''], j_imagePrompts = Some []\<rparr>),
         strip = (\<lambda>s. s)\<rparr> 1
   \<and> (\<exists>imgs w'. generate_story
        \<lparr>API_INITIALIZED = True, client_set = True,
         generate_content = (\<lambda>m n. if n < 2 then Raises ''500 Internal error''
                                   else Returns \<lparr>resp_text = ''{}'', resp_parts = []\<rparr>),
         Image_open = (\<lambda>b. Inr ()),
         json_loads = (\<lambda>s. Inr \<lparr>j_title = Some ''T'', j_moral = Some ''M'',
                                  j_story = Some [''a'', ''b''], j_imagePrompts = Some []\<rparr>),
         strip = (\<lambda>s. s)\<rparr> ''Mia'' ''3-5'' ''space'' ''adventure'' ''short'' [] []
         \<lparr>calls = (\<lambda>m. 0), sleeps = []\<rparr>
         = (Inr (Some (Story_init ''T'' ''M'' [''a'', ''b''] [] (Some imgs))), w')
        \<and> calls w' GEMINI_TEXT_MODEL = 3 \<and> slept Story_retry w' = [2, 4])"
proof -
  let ?e = "\<lparr>API_INITIALIZED = True, client_set = True,
         generate_content = (\<lambda>m n. if n < 2 then Raises ''500 Internal error''
                                   else Returns \<lparr>resp_text = ''{}'', resp_parts = []\<rparr>),
         Image_open = (\<lambda>b. Inr ()),
         json_loads = (\<lambda>s. Inr \<lparr>j_title = Some ''T'', j_moral = Some ''M'',
                                  j_story = Some [''a'', ''b''], j_imagePrompts = Some []\<rparr>),
         strip = (\<lambda>s. s)\<rparr>"
  let ?w = "\<lparr>calls = (\<lambda>m. 0::nat), sleeps = []\<rparr>"
  have i: "API_INITIALIZED ?e" "client_set ?e" "(2::nat) < max_retries"
    by (simp_all add: max_retries_def)
  have f: "story_call_fails ?e n" if "n < 2" for n
    using that by (simp add: story_call_fails_def not_quota_500)
  have fs: "\<forall>j<2. story_call_fails ?e (calls ?w GEMINI_TEXT_MODEL + j)"
    using f by simp
  have ok: "story_call_succeeds ?e (calls ?w GEMINI_TEXT_MODEL + 2)
              \<lparr>j_title = Some ''T'', j_moral = Some ''M'', j_story = Some [''a'', ''b''],
               j_imagePrompts = Some []\<rparr>"
    by (simp add: story_call_succeeds_def)
  have b: "backoffs 2 = [2, 4]"
    by (simp add: backoffs_def base_delay_def upt_rec)
  from retry_backoff_then_success [OF i fs ok, of "''Mia''" "''3-5''" "''space''"
      "''adventure''" "''short''" "[]" "[]"]
  obtain imgs w' where
    "generate_story ?e ''Mia'' ''3-5'' ''space'' ''adventure'' ''short'' [] [] ?w
       = (Inr (Some (Story_init ''T'' ''M'' [''a'', ''b''] [] (Some imgs))), w')"
    "calls w' GEMINI_TEXT_MODEL = calls ?w GEMINI_TEXT_MODEL + 2 + 1"
    "slept Story_retry w' = slept Story_retry ?w @ backoffs 2"
    by blast
  then have "\<exists>imgs w'. generate_story ?e ''Mia'' ''3-5'' ''space'' ''adventure'' ''short'' [] [] ?w
       = (Inr (Some (Story_init ''T'' ''M'' [''a'', ''b''] [] (Some imgs))), w')
     \<and> calls w' GEMINI_TEXT_MODEL = 3 \<and> slept Story_retry w' = [2, 4]"
    unfolding b by (auto simp add: slept_def)
  with i(3) f [of 1] show ?thesis by simp
qed

end
